theory Spec2Isabelle
  imports Main "HOL-Library.Sublist"
begin

section \<open>Strings of the program\<close>

text \<open>
  The program is written in TypeScript. Its strings are sequences of UTF-16 code units;
  a code unit is modelled as a natural number, a string as the list of its code units.
  \<open>lit\<close> embeds an ASCII literal of the source; the non-ASCII literals of the
  source are written out as their code units.
\<close>

type_synonym jschar = nat
type_synonym jsstring = "jschar list"

definition lit :: "string \<Rightarrow> jsstring" where
  "lit s = map of_char s"

text \<open>
  Truthiness of a value of type \<open>string | null\<close>: \<open>null\<close> and the empty string are
  falsy. A template literal renders \<open>undefined\<close> as the text \<open>undefined\<close>.
\<close>

fun truthy :: "jsstring option \<Rightarrow> bool" where
  "truthy None = False"
| "truthy (Some s) = (s \<noteq> [])"

fun tpl :: "jsstring option \<Rightarrow> jsstring" where
  "tpl None = lit ''undefined''"
| "tpl (Some s) = s"

text \<open>Rendering of a non-negative integer inside a template literal: its decimal digits.\<close>

function digits :: "nat \<Rightarrow> jsstring" where
  "digits n = (if n < 10 then [48 + n] else digits (n div 10) @ [48 + n mod 10])"
  by pat_completeness auto
termination
  by (relation "measure id") auto

declare digits.simps [simp del]

subsection \<open>\<open>String.prototype.split(',')\<close>, \<open>trim\<close>, \<open>filter(Boolean)\<close>, \<open>slice\<close>\<close>

definition comma :: jschar where
  "comma = 44"

text \<open>
  \<open>s.split(',')\<close>: the maximal comma-free pieces of \<open>s\<close>, in order; the empty string
  gives one empty piece. \<open>cur\<close> is the piece being read, reversed.
\<close>

fun split_from :: "jsstring \<Rightarrow> jsstring \<Rightarrow> jsstring list" where
  "split_from cur [] = [rev cur]"
| "split_from cur (c # cs) =
     (if c = comma then rev cur # split_from [] cs else split_from (c # cur) cs)"

definition split_comma :: "jsstring \<Rightarrow> jsstring list" where
  "split_comma s = split_from [] s"

text \<open>
  The code units \<open>trim\<close> strips: ECMAScript's WhiteSpace (TAB, VT, FF, SP, NBSP, ZWNBSP
  and the other space separators of Unicode) and LineTerminator (LF, CR, LS, PS).
\<close>

definition js_space :: "jschar \<Rightarrow> bool" where
  "js_space c \<longleftrightarrow>
     c = 0x0009 \<or> c = 0x000A \<or> c = 0x000B \<or> c = 0x000C \<or> c = 0x000D \<or> c = 0x0020 \<or>
     c = 0x00A0 \<or> c = 0x1680 \<or> (0x2000 \<le> c \<and> c \<le> 0x200A) \<or> c = 0x2028 \<or>
     c = 0x2029 \<or> c = 0x202F \<or> c = 0x205F \<or> c = 0x3000 \<or> c = 0xFEFF"

definition trim :: "jsstring \<Rightarrow> jsstring" where
  "trim s = rev (dropWhile js_space (rev (dropWhile js_space s)))"

definition MAX_CUSTOM_VARIANTS :: nat where
  "MAX_CUSTOM_VARIANTS = 12"

text \<open>
  The request list of \<open>handleGenerateCustomVariants\<close>:
  \<open>customVariantsPrompt.split(',').map(s => s.trim()).filter(Boolean).slice(0, MAX_CUSTOM_VARIANTS)\<close>.
  \<open>filter(Boolean)\<close> keeps the non-empty strings.
\<close>

definition parse_actions :: "jsstring \<Rightarrow> jsstring list" where
  "parse_actions text =
     take MAX_CUSTOM_VARIANTS (filter (\<lambda>s. s \<noteq> []) (map trim (split_comma text)))"


section \<open>Constants of the program\<close>

definition API_MODEL :: jsstring where
  "API_MODEL = lit ''gemini-2.5-flash-image-preview''"

text \<open>
  \<open>STYLES\<close>: the preset keys with their display labels, in the order of the source.
  The labels are Chinese text, given by their code units.
\<close>

definition STYLES :: "(jsstring \<times> jsstring) list" where
  "STYLES =
     [(lit ''photorealistic'', [0x8D85, 0x64EC, 0x771F]),
      (lit ''cute'', [0x53EF, 0x611B]),
      (lit ''abstract'', [0x62BD, 0x8C61]),
      (lit ''picasso'', [0x7562, 0x5361, 0x7D22]),
      (lit ''vangogh'', [0x68B5, 0x8C37]),
      (lit ''davinci'', [0x9054, 0x6587, 0x897F]),
      (lit ''monalisa'', [0x8499, 0x5A1C, 0x9E97, 0x838E]),
      (lit ''mosaic'', [0x99AC, 0x8CFD, 0x514B]),
      (lit ''custom'', [0x5176, 0x4ED6, 0x002E, 0x002E, 0x002E])]"

definition RANDOM_ACTIONS :: "jsstring list" where
  "RANDOM_ACTIONS =
     [ [0x8DD1, 0x6B65], [0x63EE, 0x624B], [0x62FF, 0x8457, 0x5496, 0x5561],
       [0x8DF3, 0x821E], [0x601D, 0x8003], [0x6176, 0x795D] ]"

text \<open>The user-visible messages of the source, by their code units.\<close>

definition msg_no_api_key :: jsstring where
  "msg_no_api_key =
     [0x7121, 0x6CD5, 0x521D, 0x59CB, 0x5316, 0x0020, 0x0041, 0x0049, 0x0020, 0x670D, 0x52D9,
      0xFF1A, 0x7F3A, 0x5C11, 0x0020, 0x0041, 0x0050, 0x0049, 0x0020, 0x91D1, 0x9470, 0x3002]"

definition msg_read_failed :: jsstring where
  "msg_read_failed =
     [0x8B80, 0x53D6, 0x6A94, 0x6848, 0x5931, 0x6557, 0xFF0C, 0x8ACB, 0x518D, 0x8A66, 0x4E00,
      0x6B21, 0x3002]"

definition msg_not_ready :: jsstring where
  "msg_not_ready =
     [0x0041, 0x0049, 0x0020, 0x670D, 0x52D9, 0x672A, 0x5C31, 0x7DD2, 0x6216, 0x672A, 0x4E0A,
      0x50B3, 0x5716, 0x7247, 0x3002]"

definition msg_no_image :: jsstring where
  "msg_no_image = [0x0041, 0x0050, 0x0049, 0x0020, 0x672A, 0x8FD4, 0x56DE, 0x5716, 0x7247, 0x3002]"

definition msg_generation_failed :: jsstring where
  "msg_generation_failed = [0x5716, 0x7247, 0x751F, 0x6210, 0x5931, 0x6557, 0x003A, 0x0020]"

definition msg_unknown_error :: jsstring where
  "msg_unknown_error = [0x672A, 0x77E5, 0x932F, 0x8AA4]"

definition msg_loading_base :: jsstring where
  "msg_loading_base =
     [0x6B63, 0x5728, 0x751F, 0x6210, 0x60A8, 0x7684, 0x4E3B, 0x9AD4, 0x8CBC, 0x5716, 0x002E,
      0x002E, 0x002E]"

definition msg_loading_variant :: "jsstring \<Rightarrow> jsstring" where
  "msg_loading_variant action =
     [0x6B63, 0x5728, 0x751F, 0x6210, 0x8B8A, 0x5316, 0x6B3E, 0x003A, 0x0020] @ action @ lit ''...''"

definition msg_variant_failed :: "jsstring \<Rightarrow> jsstring" where
  "msg_variant_failed action =
     [0x751F, 0x6210, 0x0020, 0x0022] @ action @
     [0x0022, 0x0020, 0x8B8A, 0x5316, 0x6B3E, 0x5931, 0x6557, 0x3002]"

definition msg_loading_random :: jsstring where
  "msg_loading_random =
     [0x6B63, 0x5728, 0x751F, 0x6210, 0x4E09, 0x6B3E, 0x96A8, 0x6A5F, 0x8B8A, 0x5316, 0x8CBC,
      0x5716, 0x002E, 0x002E, 0x002E]"

definition msg_no_valid_action :: jsstring where
  "msg_no_valid_action =
     [0x8ACB, 0x8F38, 0x5165, 0x81F3, 0x5C11, 0x4E00, 0x500B, 0x6709, 0x6548, 0x7684, 0x60C5,
      0x5883, 0x3002]"

definition msg_loading_custom :: jsstring where
  "msg_loading_custom =
     [0x6B63, 0x5728, 0x751F, 0x6210, 0x81EA, 0x8A02, 0x8B8A, 0x5316, 0x8CBC, 0x5716, 0x002E,
      0x002E, 0x002E]"

definition default_customVariantsPrompt :: jsstring where
  "default_customVariantsPrompt =
     lit ''yes, no, ok, '' @ [0x751F, 0x6C23] @ lit '', '' @ [0x4E0D, 0x8981] @ lit '', '' @
     [0x4E0D, 0x53EF, 0x4EE5] @ lit '', '' @ [0x8003, 0x8A66] @ lit ''100'' @ [0x5206] @
     lit '', '' @ [0x6572, 0x6728, 0x9B5A]"


section \<open>Data model\<close>

text \<open>The state variables of the \<open>App\<close> component (\<open>useState\<close>).\<close>

record uploaded =
  url :: jsstring
  base64 :: jsstring
  mimeType :: jsstring

record sticker =
  id_ :: jsstring
  uri :: jsstring
  label :: jsstring

datatype appStep = upload | base_generated | variants_generated

datatype textMode = guide_only | render_to_image

text \<open>
  What the program hands to the outside: a request to the image service (the model
  name, the inline image part and the text part of \<open>generateContent\<close>), and a file
  offered for download (\<open>downloadJson\<close>, \<open>downloadDataUrl\<close>).
\<close>

record request =
  req_model :: jsstring
  req_data :: jsstring
  req_mimeType :: jsstring
  req_text :: jsstring

text \<open>
  A JavaScript value as far as the metadata object has them, and an object as the list
  of its properties in insertion order.
\<close>

datatype jsvalue = JUndefined | JString jsstring | JNumber nat | JBool bool

type_synonym jsobject = "(jsstring \<times> jsvalue) list"

record download =
  filename :: jsstring
  document :: jsobject

text \<open>
  The state of the component. \<open>ai\<close> is the memoised client (\<open>None\<close> for \<open>null\<close>), named
  by its key. The last two fields are not variables of the source: \<open>sent\<close> lists the
  requests submitted to the service so far, oldest first, and \<open>downloads\<close> the JSON
  documents offered for download.
\<close>

record state =
  uploadedImage :: "uploaded option"
  consentChecked :: bool
  style :: jsstring
  customStyle :: jsstring
  styleStrength :: nat
  userPrompt :: jsstring
  lockCharacter :: bool
  faceConsistency :: bool
  textIntent :: jsstring
  textMode :: textMode
  customVariantsPrompt :: jsstring
  isLoading :: bool
  loadingMessage :: jsstring
  error :: "jsstring option"
  appStep :: appStep
  baseSticker :: "jsstring option"
  variants :: "sticker list"
  ai :: "jsstring option"
  sent :: "request list"
  downloads :: "download list"

text \<open>
  The first render. \<open>apiKey\<close> is \<open>process.env.API_KEY\<close>; \<open>!apiKey\<close> holds for an
  undefined and for an empty key, and then the client is \<open>null\<close> and the error is set.
  \<open>styleStrength\<close> is a number of the source; the slider (\<open>min=0 max=100\<close>, whole
  steps) and the initial 70 only ever give it whole non-negative values.
\<close>

definition init :: "jsstring option \<Rightarrow> state" where
  "init apiKey =
     \<lparr> uploadedImage = None, consentChecked = False,
       style = lit ''cute'', customStyle = [], styleStrength = 70, userPrompt = [],
       lockCharacter = True, faceConsistency = False,
       textIntent = [], textMode = guide_only,
       customVariantsPrompt = default_customVariantsPrompt,
       isLoading = False, loadingMessage = [],
       error = (if truthy apiKey then None else Some msg_no_api_key),
       appStep = upload, baseSticker = None, variants = [],
       ai = (if truthy apiKey then apiKey else None),
       sent = [], downloads = [] \<rparr>"

section \<open>The generation client\<close>

text \<open>
  The response of the service as \<open>generateImage\<close> reads it:
  \<open>response.candidates?.[0]?.content?.parts ?? []\<close>, and of a part its \<open>inlineData\<close>
  with \<open>mimeType\<close> and \<open>data\<close>. Every one of these is optional in the service's
  types; \<open>None\<close> is \<open>undefined\<close>.
\<close>

record blob =
  inline_data :: "jsstring option"
  inline_mimeType :: "jsstring option"

record part =
  part_text :: "jsstring option"
  inlineData :: "blob option"

record content =
  parts :: "part list option"

record candidate =
  content :: "content option"

record response =
  candidates :: "candidate list option"

text \<open>
  A thrown value: an \<open>Error\<close> with its message, or something that is not an \<open>Error\<close>.
  The awaited call is either rejected with a thrown value or fulfilled with a response.
  The service is any function from the requests sent before and the present request to
  the outcome of the call.
\<close>

datatype thrown = Error jsstring | NonError

datatype api_outcome = Rejected thrown | Fulfilled response

type_synonym service = "request list \<Rightarrow> request \<Rightarrow> api_outcome"

definition response_parts :: "response \<Rightarrow> part list" where
  "response_parts r =
     (case candidates r of
        None \<Rightarrow> []
      | Some [] \<Rightarrow> []
      | Some (c # _) \<Rightarrow>
          (case content c of
             None \<Rightarrow> []
           | Some ct \<Rightarrow> (case parts ct of None \<Rightarrow> [] | Some ps \<Rightarrow> ps)))"

definition data_uri :: "blob \<Rightarrow> jsstring" where
  "data_uri b = lit ''data:'' @ tpl (inline_mimeType b) @ lit '';base64,'' @ tpl (inline_data b)"

text \<open>
  The loop over the parts: the first part with \<open>inlineData\<close> is returned; after the loop
  \<open>new Error(msg_no_image)\<close> is thrown.
\<close>

fun scan_parts :: "part list \<Rightarrow> thrown + jsstring" where
  "scan_parts [] = Inl (Error msg_no_image)"
| "scan_parts (p # ps) =
     (case inlineData p of Some b \<Rightarrow> Inr (data_uri b) | None \<Rightarrow> scan_parts ps)"

text \<open>The body of the \<open>try\<close> block, from the outcome of the awaited call on.\<close>

definition generateImage_try :: "api_outcome \<Rightarrow> thrown + jsstring" where
  "generateImage_try out =
     (case out of Rejected e \<Rightarrow> Inl e | Fulfilled r \<Rightarrow> scan_parts (response_parts r))"

text \<open>\<open>err instanceof Error ? err.message : msg_unknown_error\<close>\<close>

fun err_message :: "thrown \<Rightarrow> jsstring" where
  "err_message (Error m) = m"
| "err_message NonError = msg_unknown_error"

definition make_request :: "uploaded \<Rightarrow> jsstring \<Rightarrow> request" where
  "make_request img promptText =
     \<lparr> req_model = API_MODEL, req_data = base64 img, req_mimeType = mimeType img,
       req_text = promptText \<rparr>"

text \<open>
  \<open>generateImage\<close>. A handler closes over the values of the render it belongs to:
  \<open>c\<close> is that render's state, from which \<open>ai\<close> and \<open>uploadedImage\<close> are read, and \<open>s\<close>
  is the state the setters write to. The result is the returned string (\<open>None\<close> for
  \<open>null\<close>) and the state after.
\<close>

definition generateImage :: "service \<Rightarrow> state \<Rightarrow> jsstring \<Rightarrow> state \<Rightarrow> jsstring option \<times> state" where
  "generateImage svc c promptText s =
     (case (ai c, uploadedImage c) of
        (Some _, Some img) \<Rightarrow>
          (let req = make_request img promptText;
               s1 = s\<lparr>sent := sent s @ [req]\<rparr>
           in case generateImage_try (svc (sent s) req) of
                Inr u \<Rightarrow> (Some u, s1)
              | Inl e \<Rightarrow> (None, s1\<lparr>error := Some (msg_generation_failed @ err_message e)\<rparr>))
      | _ \<Rightarrow> (None, s\<lparr>error := Some msg_not_ready\<rparr>))"


section \<open>Prompt construction\<close>

definition dq :: jsstring where
  "dq = [0x22]"

text \<open>\<open>style === 'custom' ? customStyle : STYLES[style]\<close>; a key that \<open>STYLES\<close> lacks gives \<open>undefined\<close>.\<close>

definition stylePrompt :: "state \<Rightarrow> jsstring option" where
  "stylePrompt c = (if style c = lit ''custom'' then Some (customStyle c) else map_of STYLES (style c))"

definition lock_clause :: "state \<Rightarrow> jsstring" where
  "lock_clause c = (if lockCharacter c then lit ''Maintain character consistency.'' else [])"

definition face_clause :: "state \<Rightarrow> jsstring" where
  "face_clause c =
     (if faceConsistency c then lit ''Pay close attention to face consistency.'' else [])"

text \<open>The template literal of \<open>handleGenerateBase\<close>.\<close>

definition base_prompt :: "state \<Rightarrow> jsstring" where
  "base_prompt c =
     lit ''Generate a sticker with a transparent background. The subject should be based on the provided image, but rendered in a ''
     @ dq @ tpl (stylePrompt c) @ dq @ lit '' style. ''
     @ (if userPrompt c \<noteq> []
        then lit ''Incorporate this description: '' @ dq @ userPrompt c @ dq @ lit ''.''
        else [])
     @ lit '' Style strength should be around '' @ digits (styleStrength c) @ lit ''%. ''
     @ lock_clause c @ lit '' '' @ face_clause c"

text \<open>The template literal of \<open>generateVariants\<close>, for one action.\<close>

definition variant_prompt :: "state \<Rightarrow> jsstring \<Rightarrow> jsstring" where
  "variant_prompt c action =
     lit ''Based on the character in the image, create a sticker of them showing the emotion or action: ''
     @ dq @ action @ dq @ lit ''. The style should be '' @ dq @ tpl (stylePrompt c) @ dq
     @ lit '' with a transparent background. ''
     @ (if userPrompt c \<noteq> []
        then lit ''Incorporate this general theme: '' @ dq @ userPrompt c @ dq @ lit ''.''
        else [])
     @ lit '' '' @ lock_clause c @ lit '' '' @ face_clause c"

section \<open>The handlers\<close>

text \<open>
  Each handler is modelled as running from the event to its last statement, the awaited
  calls answered by the service in between; \<open>c\<close> is the state of the render whose
  handler runs, which is also the state it starts to write to.
\<close>

definition resetGeneration :: "state \<Rightarrow> state" where
  "resetGeneration s = s\<lparr>appStep := upload, baseSticker := None, variants := []\<rparr>"

text \<open>
  A chosen file: the object URL the browser gives it and the settlement of
  \<open>fileToBase64\<close>, either rejected or resolved with \<open>data\<close> and \<open>mimeType\<close>.
\<close>

datatype file_read = ReadError | ReadOk jsstring jsstring

record chosen_file =
  object_url :: jsstring
  read_result :: file_read

text \<open>\<open>handleFileChange\<close>; \<open>None\<close> is an event without a file.\<close>

definition handleFileChange :: "chosen_file option \<Rightarrow> state \<Rightarrow> state" where
  "handleFileChange f s =
     (case f of
        None \<Rightarrow> s
      | Some fl \<Rightarrow>
          (case read_result fl of
             ReadOk d m \<Rightarrow>
               resetGeneration
                 (s\<lparr>uploadedImage := Some \<lparr>url = object_url fl, base64 = d, mimeType = m\<rparr>,
                    error := None\<rparr>)
           | ReadError \<Rightarrow> s\<lparr>error := Some msg_read_failed\<rparr>))"

definition handleGenerateBase :: "service \<Rightarrow> state \<Rightarrow> state" where
  "handleGenerateBase svc c =
     (let s1 = c\<lparr>error := None, isLoading := True, loadingMessage := msg_loading_base\<rparr>;
          (result, s2) = generateImage svc c (base_prompt c) s1;
          s3 = (if truthy result then s2\<lparr>baseSticker := result, appStep := base_generated\<rparr>
                else s2)
      in s3\<lparr>isLoading := False\<rparr>)"

text \<open>
  The loop of \<open>generateVariants\<close>: \<open>acc\<close> is \<open>generatedVariants\<close>. A truthy result is
  pushed with the id \<open>v\<close> followed by the new length; otherwise the error is set and the
  loop goes on.
\<close>

fun variants_loop ::
  "service \<Rightarrow> state \<Rightarrow> jsstring list \<Rightarrow> sticker list \<Rightarrow> state \<Rightarrow> sticker list \<times> state" where
  "variants_loop svc c [] acc s = (acc, s)"
| "variants_loop svc c (action # rest) acc s =
     (let s1 = s\<lparr>loadingMessage := msg_loading_variant action\<rparr>;
          (result, s2) = generateImage svc c (variant_prompt c action) s1
      in case result of
           Some r \<Rightarrow>
             (if r \<noteq> []
              then variants_loop svc c rest
                     (acc @ [\<lparr>id_ = lit ''v'' @ digits (length acc + 1), uri = r, label = action\<rparr>])
                     s2
              else variants_loop svc c rest acc (s2\<lparr>error := Some (msg_variant_failed action)\<rparr>))
         | None \<Rightarrow> variants_loop svc c rest acc (s2\<lparr>error := Some (msg_variant_failed action)\<rparr>))"

definition generateVariants :: "service \<Rightarrow> state \<Rightarrow> jsstring list \<Rightarrow> state \<Rightarrow> state" where
  "generateVariants svc c actions s =
     (let s1 = s\<lparr>error := None, isLoading := True, variants := []\<rparr>;
          (generatedVariants, s2) = variants_loop svc c actions [] s1
      in s2\<lparr>variants := generatedVariants, appStep := variants_generated, isLoading := False\<rparr>)"

text \<open>
  \<open>handleGenerateVariants\<close>. \<open>shuffled\<close> is what the sort of the copy of
  \<open>RANDOM_ACTIONS\<close> under the random comparison returned; its first three entries are
  the actions.
\<close>

definition handleGenerateVariants :: "service \<Rightarrow> jsstring list \<Rightarrow> state \<Rightarrow> state" where
  "handleGenerateVariants svc shuffled c =
     generateVariants svc c (take 3 shuffled) (c\<lparr>loadingMessage := msg_loading_random\<rparr>)"

definition handleGenerateCustomVariants :: "service \<Rightarrow> state \<Rightarrow> state" where
  "handleGenerateCustomVariants svc c =
     (let actions = parse_actions (customVariantsPrompt c)
      in if length actions = 0 then c\<lparr>error := Some msg_no_valid_action\<rparr>
         else generateVariants svc c actions (c\<lparr>loadingMessage := msg_loading_custom\<rparr>))"

subsection \<open>Metadata export\<close>

fun textMode_str :: "textMode \<Rightarrow> jsstring" where
  "textMode_str guide_only = lit ''guide_only''"
| "textMode_str render_to_image = lit ''render_to_image''"

text \<open>The object literal of \<open>handleExportMetadata\<close>; \<open>now\<close> is \<open>new Date().toISOString()\<close>.\<close>

definition metadata :: "jsstring \<Rightarrow> state \<Rightarrow> jsobject" where
  "metadata now c =
     [(lit ''style'', JString (style c)),
      (lit ''customStyle'', if style c = lit ''custom'' then JString (customStyle c) else JUndefined),
      (lit ''styleStrength'', JNumber (styleStrength c)),
      (lit ''userPrompt'', JString (userPrompt c)),
      (lit ''lockCharacter'', JBool (lockCharacter c)),
      (lit ''faceConsistency'', JBool (faceConsistency c)),
      (lit ''textIntent'', JString (textIntent c)),
      (lit ''textMode'', JString (textMode_str (textMode c))),
      (lit ''timestamp'', JString now),
      (lit ''model'', JString API_MODEL)]"

text \<open>
  \<open>JSON.stringify\<close> of an object of such values: the properties whose value is
  \<open>undefined\<close> are left out, the others are written in order. The document is kept as
  the list of the members written.
\<close>

definition JSON_stringify :: "jsobject \<Rightarrow> jsobject" where
  "JSON_stringify obj = filter (\<lambda>(k, v). v \<noteq> JUndefined) obj"

definition downloadJson :: "jsobject \<Rightarrow> jsstring \<Rightarrow> state \<Rightarrow> state" where
  "downloadJson obj name s =
     s\<lparr>downloads := downloads s @ [\<lparr>filename = name, document = JSON_stringify obj\<rparr>]\<rparr>"

definition handleExportMetadata :: "jsstring \<Rightarrow> state \<Rightarrow> state" where
  "handleExportMetadata now c = downloadJson (metadata now c) (lit ''metadata.json'') c"


section \<open>The rendered interface\<close>

text \<open>
  The buttons of the returned markup that run a handler of the component. The download
  buttons of the single images and the ZIP button change no state variable; of these
  only the ZIP button is listed.
\<close>

datatype control =
    GenerateBaseButton
  | ExportZipButton
  | ExportMetadataButton
  | RegenerateButton
  | ConfirmButton
  | RerollButton
  | CustomVariantsButton

definition isGenerateButtonDisabled :: "state \<Rightarrow> bool" where
  "isGenerateButtonDisabled s \<longleftrightarrow> uploadedImage s = None \<or> \<not> consentChecked s \<or> isLoading s"

text \<open>
  The results panel shows the gallery and the buttons below it only when nothing is
  loading and \<open>baseSticker\<close> is truthy.
\<close>

definition gallery_shown :: "state \<Rightarrow> bool" where
  "gallery_shown s \<longleftrightarrow> \<not> isLoading s \<and> truthy (baseSticker s)"

fun rendered :: "state \<Rightarrow> control \<Rightarrow> bool" where
  "rendered s GenerateBaseButton = True"
| "rendered s ExportZipButton = (appStep s \<noteq> upload)"
| "rendered s ExportMetadataButton = (appStep s \<noteq> upload)"
| "rendered s RegenerateButton = (gallery_shown s \<and> appStep s = base_generated)"
| "rendered s ConfirmButton = (gallery_shown s \<and> appStep s = base_generated)"
| "rendered s RerollButton = (gallery_shown s \<and> appStep s = variants_generated)"
| "rendered s CustomVariantsButton = (gallery_shown s \<and> appStep s = variants_generated)"

text \<open>The \<open>disabled\<close> attribute of each button; a button without one is never disabled.\<close>

fun disabled :: "state \<Rightarrow> control \<Rightarrow> bool" where
  "disabled s GenerateBaseButton = isGenerateButtonDisabled s"
| "disabled s ExportZipButton = (isLoading s \<or> (length (variants s) = 0 \<and> \<not> truthy (baseSticker s)))"
| "disabled s ExportMetadataButton = isLoading s"
| "disabled s RegenerateButton = False"
| "disabled s ConfirmButton = False"
| "disabled s RerollButton = isLoading s"
| "disabled s CustomVariantsButton = (isLoading s \<or> trim (customVariantsPrompt s) = [])"

definition can_click :: "state \<Rightarrow> control \<Rightarrow> bool" where
  "can_click s b \<longleftrightarrow> rendered s b \<and> \<not> disabled s b"

text \<open>
  What the surroundings decide while a click is handled: the order the random sort
  produced and the time stamp of the clock.
\<close>

record ambient =
  shuffled :: "jsstring list"
  now :: jsstring

fun onClick :: "service \<Rightarrow> control \<Rightarrow> ambient \<Rightarrow> state \<Rightarrow> state" where
  "onClick svc GenerateBaseButton env s = handleGenerateBase svc s"
| "onClick svc ExportZipButton env s = s"
| "onClick svc ExportMetadataButton env s = handleExportMetadata (now env) s"
| "onClick svc RegenerateButton env s = handleGenerateBase svc s"
| "onClick svc ConfirmButton env s = handleGenerateVariants svc (shuffled env) s"
| "onClick svc RerollButton env s = handleGenerateVariants svc (shuffled env) s"
| "onClick svc CustomVariantsButton env s = handleGenerateCustomVariants svc s"

text \<open>
  The events of the user: a change of one of the inputs, or a click on a button. The
  style select offers the keys of \<open>STYLES\<close>, the custom-style input exists only while
  the style is \<open>custom\<close>, and the slider gives 0 to 100.
\<close>

datatype event =
    FileChange "chosen_file option"
  | ConsentChange bool
  | StyleChange jsstring
  | CustomStyleChange jsstring
  | StrengthChange nat
  | LockChange bool
  | FaceChange bool
  | UserPromptChange jsstring
  | CustomVariantsChange jsstring
  | Click control ambient

fun step :: "service \<Rightarrow> state \<Rightarrow> event \<Rightarrow> state" where
  "step svc s (FileChange f) = handleFileChange f s"
| "step svc s (ConsentChange b) = s\<lparr>consentChecked := b\<rparr>"
| "step svc s (StyleChange k) = (if k \<in> set (map fst STYLES) then s\<lparr>style := k\<rparr> else s)"
| "step svc s (CustomStyleChange t) = (if style s = lit ''custom'' then s\<lparr>customStyle := t\<rparr> else s)"
| "step svc s (StrengthChange n) = (if n \<le> 100 then s\<lparr>styleStrength := n\<rparr> else s)"
| "step svc s (LockChange b) = s\<lparr>lockCharacter := b\<rparr>"
| "step svc s (FaceChange b) = s\<lparr>faceConsistency := b\<rparr>"
| "step svc s (UserPromptChange t) = s\<lparr>userPrompt := t\<rparr>"
| "step svc s (CustomVariantsChange t) =
     (if gallery_shown s \<and> appStep s = variants_generated then s\<lparr>customVariantsPrompt := t\<rparr> else s)"
| "step svc s (Click b env) = (if can_click s b then onClick svc b env s else s)"

text \<open>A session: the events handled one after the other, from a given state.\<close>

definition run :: "service \<Rightarrow> state \<Rightarrow> event list \<Rightarrow> state" where
  "run svc s evs = foldl (step svc) s evs"


section \<open>Notions used to state the properties\<close>

subsection \<open>Request lists\<close>

text \<open>An entry that is empty or consists of white space only.\<close>

definition blank :: "jsstring \<Rightarrow> bool" where
  "blank e \<longleftrightarrow> list_all js_space e"

text \<open>
  The request list in the words of the specification: split on commas, drop the empty
  and white-space entries, trim the others, keep the first 12.
\<close>

definition requests_spec :: "jsstring \<Rightarrow> jsstring list" where
  "requests_spec text = take 12 (map trim (filter (\<lambda>e. \<not> blank e) (split_comma text)))"

text \<open>\<open>Array.prototype.join(',')\<close>, the inverse of splitting.\<close>

fun join_comma :: "jsstring list \<Rightarrow> jsstring" where
  "join_comma [] = []"
| "join_comma [p] = p"
| "join_comma (p # q # ps) = p @ comma # join_comma (q # ps)"

subsection \<open>A batch of calls\<close>

text \<open>
  What the service answers to a list of requests submitted one after the other, the
  requests \<open>hist\<close> having been sent before: for each request the result of the \<open>try\<close>
  block, a data URI or the thrown value.
\<close>

fun answers :: "service \<Rightarrow> request list \<Rightarrow> request list \<Rightarrow> (thrown + jsstring) list" where
  "answers svc hist [] = []"
| "answers svc hist (r # rs) = generateImage_try (svc hist r) # answers svc (hist @ [r]) rs"

definition variant_requests :: "state \<Rightarrow> uploaded \<Rightarrow> jsstring list \<Rightarrow> request list" where
  "variant_requests c img actions = map (\<lambda>a. make_request img (variant_prompt c a)) actions"

text \<open>
  The captions whose call gave an image, each with its image, and the captions whose
  call failed, both in the order of the list.
\<close>

fun successes :: "jsstring list \<Rightarrow> (thrown + jsstring) list \<Rightarrow> (jsstring \<times> jsstring) list" where
  "successes (a # as) (Inr u # rs) = (a, u) # successes as rs"
| "successes (a # as) (Inl e # rs) = successes as rs"
| "successes _ _ = []"

fun failures :: "jsstring list \<Rightarrow> (thrown + jsstring) list \<Rightarrow> jsstring list" where
  "failures (a # as) (Inr u # rs) = failures as rs"
| "failures (a # as) (Inl e # rs) = a # failures as rs"
| "failures _ _ = []"

text \<open>The stickers of a list of captions with images, with the ids \<open>v(n+1)\<close>, \<open>v(n+2)\<close>, ...\<close>

fun numbered :: "nat \<Rightarrow> (jsstring \<times> jsstring) list \<Rightarrow> sticker list" where
  "numbered n [] = []"
| "numbered n ((a, u) # xs) =
     \<lparr>id_ = lit ''v'' @ digits (n + 1), uri = u, label = a\<rparr> # numbered (n + 1) xs"

subsection \<open>Sessions\<close>

text \<open>
  What holds between any two events of a session: nothing is loading, and a base
  sticker is only there when the client and an uploaded image are.
\<close>

definition session_inv :: "state \<Rightarrow> bool" where
  "session_inv s \<longleftrightarrow>
     \<not> isLoading s \<and> (truthy (baseSticker s) \<longrightarrow> ai s \<noteq> None \<and> uploadedImage s \<noteq> None)"

text \<open>The position of a workflow state in the order \<open>upload\<close>, \<open>base_generated\<close>, \<open>variants_generated\<close>.\<close>

fun rank :: "appStep \<Rightarrow> nat" where
  "rank upload = 0"
| "rank base_generated = 1"
| "rank variants_generated = 2"

subsection \<open>Events that move the workflow\<close>

text \<open>What the call of a base generation started in state \<open>s\<close> returns.\<close>

definition base_result :: "service \<Rightarrow> state \<Rightarrow> jsstring option" where
  "base_result svc s =
     fst (generateImage svc s (base_prompt s)
            (s\<lparr>error := None, isLoading := True, loadingMessage := msg_loading_base\<rparr>))"

text \<open>A file change with a file that was read successfully.\<close>

fun successful_upload :: "event \<Rightarrow> bool" where
  "successful_upload (FileChange (Some fl)) =
     (case read_result fl of ReadOk d m \<Rightarrow> True | ReadError \<Rightarrow> False)"
| "successful_upload _ = False"

subsection \<open>Sample inputs\<close>

definition example_key :: jsstring where
  "example_key = lit ''key''"

definition example_file :: chosen_file where
  "example_file =
     \<lparr>object_url = lit ''blob:1'', read_result = ReadOk (lit ''AAAA'') (lit ''image/png'')\<rparr>"

definition example_image :: uploaded where
  "example_image = \<lparr>url = lit ''blob:1'', base64 = lit ''AAAA'', mimeType = lit ''image/png''\<rparr>"

definition image_part :: part where
  "image_part =
     \<lparr>part_text = None,
      inlineData = Some \<lparr>inline_data = Some (lit ''BBBB''), inline_mimeType = Some (lit ''image/png'')\<rparr>\<rparr>"

definition text_part :: part where
  "text_part = \<lparr>part_text = Some (lit ''done''), inlineData = None\<rparr>"

definition respond :: "part list \<Rightarrow> api_outcome" where
  "respond ps = Fulfilled \<lparr>candidates = Some [\<lparr>content = Some \<lparr>parts = Some ps\<rparr>\<rparr>]\<rparr>"

text \<open>
  Three services: one that always answers with a text part and an image part, one whose
  calls are all rejected, and one that rejects exactly the second call it gets.
\<close>

definition svc_image :: service where
  "svc_image hist req = respond [text_part, image_part]"

definition svc_down :: service where
  "svc_down hist req = Rejected (Error (lit ''quota''))"


definition example_env :: ambient where
  "example_env = \<lparr>shuffled = RANDOM_ACTIONS, now = lit ''2025-01-01T00:00:00.000Z''\<rparr>"

text \<open>A render with the client and an image, before anything was generated.\<close>

definition state_ready :: state where
  "state_ready = (init (Some example_key))\<lparr>uploadedImage := Some example_image, consentChecked := True\<rparr>"

text \<open>
  Two sessions with the service that always answers with an image. In the first the
  user uploads, consents, generates the base sticker and confirms; in the second the
  user uploads, consents, generates the base sticker and then withdraws the consent.
\<close>

definition state_with_variants :: state where
  "state_with_variants =
     run svc_image (init (Some example_key))
       [FileChange (Some example_file), ConsentChange True,
        Click GenerateBaseButton example_env, Click ConfirmButton example_env]"

definition state_consent_withdrawn :: state where
  "state_consent_withdrawn =
     run svc_image (init (Some example_key))
       [FileChange (Some example_file), ConsentChange True,
        Click GenerateBaseButton example_env, ConsentChange False]"

text \<open>The same start, up to the generated base sticker.\<close>

definition state_with_base :: state where
  "state_with_base =
     run svc_image (init (Some example_key))
       [FileChange (Some example_file), ConsentChange True,
        Click GenerateBaseButton example_env]"


section \<open>Auxiliary facts\<close>

subsection \<open>Strings\<close>

lemma lit_eq_iff [simp]: "lit a = lit b \<longleftrightarrow> a = b"
  by (simp add: lit_def inj_map_eq_map inj_on_def)

lemma lit_Nil [simp]: "lit a = [] \<longleftrightarrow> a = []" "[] = lit a \<longleftrightarrow> a = []"
  by (auto simp: lit_def)

lemma dropWhile_all: "(\<forall>x\<in>set (dropWhile P e). P x) \<longleftrightarrow> (\<forall>x\<in>set e. P x)"
  by (induction e) auto

lemma trim_empty_iff: "trim e = [] \<longleftrightarrow> blank e"
  by (simp add: trim_def blank_def dropWhile_eq_Nil_conv list_all_iff dropWhile_all)

lemma trim_decompose:
  "\<exists>l r. e = l @ trim e @ r \<and> list_all js_space l \<and> list_all js_space r"
proof -
  let ?l = "takeWhile js_space e" and ?m = "dropWhile js_space e"
  let ?r = "rev (takeWhile js_space (rev ?m))"
  have "rev ?m = takeWhile js_space (rev ?m) @ dropWhile js_space (rev ?m)" by simp
  then have "?m = rev (dropWhile js_space (rev ?m)) @ ?r"
    by (metis rev_append rev_rev_ident)
  then have "e = ?l @ trim e @ ?r" by (simp add: trim_def)
  moreover have "list_all js_space ?l" by (simp add: list_all_iff) (meson set_takeWhileD)
  moreover have "list_all js_space ?r" by (simp add: list_all_iff) (meson set_takeWhileD)
  ultimately show ?thesis by blast
qed

lemma trim_ends:
  "trim e \<noteq> [] \<Longrightarrow> \<not> js_space (hd (trim e)) \<and> \<not> js_space (last (trim e))"
proof -
  assume ne: "trim e \<noteq> []"
  let ?m = "dropWhile js_space e"
  let ?k = "dropWhile js_space (rev ?m)"
  have k: "?k \<noteq> []" using ne by (simp add: trim_def)
  then have "\<not> js_space (hd ?k)" by (rule hd_dropWhile)
  then have l: "\<not> js_space (last (trim e))" using k by (simp add: trim_def last_rev)
  have m: "?m \<noteq> []"
  proof
    assume a: "?m = []"
    have "?k = []" unfolding a by simp
    with k show False by blast
  qed
  then have hm: "\<not> js_space (hd ?m)" by (rule hd_dropWhile)
  have "rev ?m = takeWhile js_space (rev ?m) @ ?k" by simp
  then have "?m = rev ?k @ rev (takeWhile js_space (rev ?m))" by (metis rev_append rev_rev_ident)
  then have "hd ?m = hd (rev ?k)" using k by (metis hd_append2 rev_is_Nil_conv)
  then show ?thesis using hm l by (simp add: trim_def)
qed

lemma split_from_nonempty: "split_from cur s \<noteq> []"
  by (induction s arbitrary: cur) auto

lemma join_split_from: "join_comma (split_from cur s) = rev cur @ s"
proof (induction s arbitrary: cur)
  case Nil
  then show ?case by simp
next
  case (Cons c cs)
  show ?case
  proof (cases "c = comma")
    case True
    obtain q qs where q: "split_from [] cs = q # qs"
      using split_from_nonempty[of "[]" cs] by (cases "split_from [] cs") auto
    have "join_comma (q # qs) = cs" using Cons[of "[]"] q by simp
    then show ?thesis using True q by simp
  next
    case False
    then show ?thesis using Cons[of "c # cur"] by simp
  qed
qed

lemma split_from_no_comma:
  "comma \<notin> set cur \<Longrightarrow> p \<in> set (split_from cur s) \<Longrightarrow> comma \<notin> set p"
  by (induction s arbitrary: cur) (force split: if_splits)+

lemma split_from_all:
  "(\<forall>p\<in>set (split_from cur s). list_all P p) \<longleftrightarrow>
     (list_all P cur \<and> (\<forall>ch\<in>set s. ch = comma \<or> P ch))"
  by (induction s arbitrary: cur) (auto simp: list_all_iff)

lemma parse_actions_empty_iff:
  "parse_actions t = [] \<longleftrightarrow> (\<forall>ch\<in>set t. ch = comma \<or> js_space ch)"
proof -
  have "parse_actions t = [] \<longleftrightarrow> (\<forall>p\<in>set (split_comma t). trim p = [])"
    by (auto simp: parse_actions_def MAX_CUSTOM_VARIANTS_def filter_empty_conv)
  also have "\<dots> \<longleftrightarrow> (\<forall>p\<in>set (split_from [] t). list_all js_space p)"
    by (simp add: trim_empty_iff blank_def split_comma_def)
  also have "\<dots> \<longleftrightarrow> (\<forall>ch\<in>set t. ch = comma \<or> js_space ch)"
    by (simp add: split_from_all)
  finally show ?thesis .
qed

subsection \<open>The generation client\<close>

lemma data_uri_nonempty: "data_uri b \<noteq> []"
  by (simp add: data_uri_def lit_def)

lemma scan_parts_map_filter:
  "scan_parts ps =
     (case List.map_filter inlineData ps of [] \<Rightarrow> Inl (Error msg_no_image) | b # _ \<Rightarrow> Inr (data_uri b))"
  by (induction ps) (auto simp: List.map_filter_simps split: option.splits)

lemma scan_parts_nonempty: "scan_parts ps = Inr u \<Longrightarrow> u \<noteq> []"
  by (induction ps) (auto simp: data_uri_nonempty split: option.splits)

lemma generateImage_try_nonempty: "generateImage_try out = Inr u \<Longrightarrow> u \<noteq> []"
  by (auto simp: generateImage_try_def scan_parts_nonempty split: api_outcome.splits)

lemma generateImage_ready:
  assumes "ai c = Some k" "uploadedImage c = Some img"
  shows "generateImage svc c p s =
     (case generateImage_try (svc (sent s) (make_request img p)) of
        Inr u \<Rightarrow> (Some u, s\<lparr>sent := sent s @ [make_request img p]\<rparr>)
      | Inl e \<Rightarrow> (None, s\<lparr>sent := sent s @ [make_request img p],
                          error := Some (msg_generation_failed @ err_message e)\<rparr>))"
  using assms by (simp add: generateImage_def Let_def)

lemma generateImage_frame:
  "\<exists>x e. snd (generateImage svc c p s) = s\<lparr>error := e, sent := x\<rparr>"
proof (cases "ai c")
  case None
  have "snd (generateImage svc c p s) = s\<lparr>error := Some msg_not_ready, sent := sent s\<rparr>"
    using None by (simp add: generateImage_def)
  then show ?thesis by blast
next
  case (Some k)
  show ?thesis
  proof (cases "uploadedImage c")
    case None
    have "snd (generateImage svc c p s) = s\<lparr>error := Some msg_not_ready, sent := sent s\<rparr>"
      using None Some by (simp add: generateImage_def)
    then show ?thesis by blast
  next
    case (Some img)
    show ?thesis
    proof (cases "generateImage_try (svc (sent s) (make_request img p))")
      case (Inl e)
      have "snd (generateImage svc c p s) =
          s\<lparr>error := Some (msg_generation_failed @ err_message e), sent := sent s @ [make_request img p]\<rparr>"
        using \<open>ai c = Some k\<close> Some Inl by (simp add: generateImage_ready)
      then show ?thesis by blast
    next
      case (Inr u)
      have "snd (generateImage svc c p s) =
          s\<lparr>error := error s, sent := sent s @ [make_request img p]\<rparr>"
        using \<open>ai c = Some k\<close> Some Inr by (simp add: generateImage_ready)
      then show ?thesis by blast
    qed
  qed
qed

subsection \<open>The handlers\<close>

lemma loop_fst:
  assumes "ai c = Some k" "uploadedImage c = Some img"
  shows "fst (variants_loop svc c actions acc s) =
     acc @ numbered (length acc) (successes actions (answers svc (sent s) (variant_requests c img actions)))"
  using assms
proof (induction actions arbitrary: acc s)
  case Nil
  then show ?case by (simp add: variant_requests_def)
next
  case (Cons a as)
  show ?case
  proof (cases "generateImage_try (svc (sent s) (make_request img (variant_prompt c a)))")
    case (Inl e)
    then show ?thesis using Cons
      by (simp add: generateImage_ready variant_requests_def)
  next
    case (Inr u)
    then have "u \<noteq> []" by (rule generateImage_try_nonempty)
    then show ?thesis using Inr Cons
      by (simp add: generateImage_ready variant_requests_def)
  qed
qed


lemma loop_error:
  assumes "ai c = Some k" "uploadedImage c = Some img"
  shows "error (snd (variants_loop svc c actions acc s)) =
     (case failures actions (answers svc (sent s) (variant_requests c img actions)) of
        [] \<Rightarrow> error s | f # fs \<Rightarrow> Some (msg_variant_failed (last (f # fs))))"
  using assms
proof (induction actions arbitrary: acc s)
  case Nil
  then show ?case by (simp add: variant_requests_def)
next
  case (Cons a as)
  show ?case
  proof (cases "generateImage_try (svc (sent s) (make_request img (variant_prompt c a)))")
    case (Inl e)
    then show ?thesis using Cons
      by (simp add: generateImage_ready variant_requests_def split: list.splits)
  next
    case (Inr u)
    then have "u \<noteq> []" by (rule generateImage_try_nonempty)
    then show ?thesis using Inr Cons
      by (simp add: generateImage_ready variant_requests_def split: list.splits)
  qed
qed

lemma variants_loop_frame:
  "\<exists>m e x. snd (variants_loop svc c actions acc s) = s\<lparr>loadingMessage := m, error := e, sent := x\<rparr>"
proof (induction actions arbitrary: acc s)
  case Nil
  have "snd (variants_loop svc c [] acc s) = s\<lparr>loadingMessage := loadingMessage s, error := error s, sent := sent s\<rparr>"
    by simp
  then show ?case by blast
next
  case (Cons a as)
  obtain x e where g: "snd (generateImage svc c (variant_prompt c a) (s\<lparr>loadingMessage := msg_loading_variant a\<rparr>))
      = s\<lparr>loadingMessage := msg_loading_variant a, error := e, sent := x\<rparr>"
    using generateImage_frame[of svc c "variant_prompt c a" "s\<lparr>loadingMessage := msg_loading_variant a\<rparr>"]
    by auto
  obtain r s2 where rs: "generateImage svc c (variant_prompt c a) (s\<lparr>loadingMessage := msg_loading_variant a\<rparr>) = (r, s2)"
    by (cases "generateImage svc c (variant_prompt c a) (s\<lparr>loadingMessage := msg_loading_variant a\<rparr>)")
  with g have s2: "s2 = s\<lparr>loadingMessage := msg_loading_variant a, error := e, sent := x\<rparr>" by simp
  show ?case
  proof (cases "truthy r")
    case True
    then obtain u where u: "r = Some u" "u \<noteq> []" by (cases r) auto
    obtain m' e' x' where "snd (variants_loop svc c as (acc @ [\<lparr>id_ = lit ''v'' @ digits (length acc + 1), uri = u, label = a\<rparr>]) s2)
       = s2\<lparr>loadingMessage := m', error := e', sent := x'\<rparr>"
      using Cons.IH by blast
    then have "snd (variants_loop svc c (a # as) acc s) = s\<lparr>loadingMessage := m', error := e', sent := x'\<rparr>"
      using rs u s2 by simp
    then show ?thesis by blast
  next
    case False
    obtain m' e' x' where "snd (variants_loop svc c as acc (s2\<lparr>error := Some (msg_variant_failed a)\<rparr>))
       = s2\<lparr>error := Some (msg_variant_failed a)\<rparr>\<lparr>loadingMessage := m', error := e', sent := x'\<rparr>"
      using Cons.IH by blast
    moreover have "variants_loop svc c (a # as) acc s = variants_loop svc c as acc (s2\<lparr>error := Some (msg_variant_failed a)\<rparr>)"
      using rs False by (cases r) auto
    ultimately have "snd (variants_loop svc c (a # as) acc s) = s\<lparr>loadingMessage := m', error := e', sent := x'\<rparr>"
      using s2 by simp
    then show ?thesis by blast
  qed
qed

lemma generateVariants_frame:
  "\<exists>m e x v. generateVariants svc c actions s =
     s\<lparr>isLoading := False, loadingMessage := m, error := e, appStep := variants_generated,
       variants := v, sent := x\<rparr>"
proof -
  obtain m e x where "snd (variants_loop svc c actions [] (s\<lparr>error := None, isLoading := True, variants := []\<rparr>))
     = s\<lparr>error := None, isLoading := True, variants := []\<rparr>\<lparr>loadingMessage := m, error := e, sent := x\<rparr>"
    using variants_loop_frame by blast
  then have "generateVariants svc c actions s =
     s\<lparr>isLoading := False, loadingMessage := m, error := e, appStep := variants_generated,
       variants := fst (variants_loop svc c actions [] (s\<lparr>error := None, isLoading := True, variants := []\<rparr>)), sent := x\<rparr>"
    by (simp add: generateVariants_def Let_def split_beta)
  then show ?thesis by blast
qed

lemma handleGenerateBase_frame:
  "\<exists>e x b a. handleGenerateBase svc s =
     s\<lparr>isLoading := False, loadingMessage := msg_loading_base, error := e, appStep := a,
       baseSticker := b, sent := x\<rparr> \<and>
     ((a = appStep s \<and> b = baseSticker s) \<or> (a = base_generated \<and> truthy b \<and> ai s \<noteq> None \<and> uploadedImage s \<noteq> None))"
proof -
  let ?s1 = "s\<lparr>error := None, isLoading := True, loadingMessage := msg_loading_base\<rparr>"
  obtain r s2 where rs: "generateImage svc s (base_prompt s) ?s1 = (r, s2)"
    by (cases "generateImage svc s (base_prompt s) ?s1")
  obtain x e where "snd (generateImage svc s (base_prompt s) ?s1) = ?s1\<lparr>error := e, sent := x\<rparr>"
    using generateImage_frame by blast
  with rs have s2: "s2 = ?s1\<lparr>error := e, sent := x\<rparr>" by simp
  show ?thesis
  proof (cases "truthy r")
    case True
    have rdy: "ai s \<noteq> None \<and> uploadedImage s \<noteq> None"
      using rs True by (auto simp: generateImage_def split: option.splits)
    have "handleGenerateBase svc s = s\<lparr>isLoading := False, loadingMessage := msg_loading_base, error := e, appStep := base_generated,
       baseSticker := r, sent := x\<rparr>"
      using rs s2 True by (simp add: handleGenerateBase_def Let_def)
    with True rdy show ?thesis by blast
  next
    case False
    have "handleGenerateBase svc s = s\<lparr>isLoading := False, loadingMessage := msg_loading_base, error := e, appStep := appStep s,
       baseSticker := baseSticker s, sent := x\<rparr>"
      using rs s2 False by (simp add: handleGenerateBase_def Let_def)
    then show ?thesis by blast
  qed
qed

subsection \<open>Sessions\<close>

lemma session_inv_init: "session_inv (init key)"
  by (simp add: session_inv_def init_def)

lemma session_inv_handleGenerateBase: "session_inv s \<Longrightarrow> session_inv (handleGenerateBase svc s)"
proof -
  assume i: "session_inv s"
  obtain e x b a where h: "handleGenerateBase svc s =
     s\<lparr>isLoading := False, loadingMessage := msg_loading_base, error := e, appStep := a,
       baseSticker := b, sent := x\<rparr>"
     "(a = appStep s \<and> b = baseSticker s) \<or> (a = base_generated \<and> truthy b \<and> ai s \<noteq> None \<and> uploadedImage s \<noteq> None)"
    using handleGenerateBase_frame by blast
  show ?thesis using i h(2) unfolding h(1) session_inv_def by auto
qed

lemma session_inv_generateVariants: "session_inv s \<Longrightarrow> session_inv (generateVariants svc c actions s)"
proof -
  assume i: "session_inv s"
  obtain m e x v where h: "generateVariants svc c actions s =
     s\<lparr>isLoading := False, loadingMessage := m, error := e, appStep := variants_generated,
       variants := v, sent := x\<rparr>"
    using generateVariants_frame by blast
  show ?thesis using i unfolding h session_inv_def by auto
qed

lemma session_inv_handleFileChange: "session_inv s \<Longrightarrow> session_inv (handleFileChange f s)"
  by (auto simp: session_inv_def handleFileChange_def resetGeneration_def split: option.splits file_read.splits)

lemma session_inv_onClick: "session_inv s \<Longrightarrow> session_inv (onClick svc b env s)"
proof (cases b)
  case CustomVariantsButton
  assume "session_inv s"
  moreover have "session_inv (s\<lparr>error := Some msg_no_valid_action\<rparr>)" if "session_inv s" using that by (simp add: session_inv_def)
  moreover have "session_inv (s\<lparr>loadingMessage := msg_loading_custom\<rparr>)" if "session_inv s" using that by (simp add: session_inv_def)
  ultimately show ?thesis using CustomVariantsButton
    by (simp add: handleGenerateCustomVariants_def Let_def session_inv_generateVariants)
next
  case ConfirmButton
  assume "session_inv s"
  then have "session_inv (s\<lparr>loadingMessage := msg_loading_random\<rparr>)" by (simp add: session_inv_def)
  then show ?thesis using ConfirmButton by (simp add: handleGenerateVariants_def session_inv_generateVariants)
next
  case RerollButton
  assume "session_inv s"
  then have "session_inv (s\<lparr>loadingMessage := msg_loading_random\<rparr>)" by (simp add: session_inv_def)
  then show ?thesis using RerollButton by (simp add: handleGenerateVariants_def session_inv_generateVariants)
next
  case ExportMetadataButton
  assume "session_inv s"
  then show ?thesis using ExportMetadataButton
    by (simp add: handleExportMetadata_def downloadJson_def session_inv_def)
qed (simp_all add: session_inv_handleGenerateBase)

lemma session_inv_step: "session_inv s \<Longrightarrow> session_inv (step svc s ev)"
proof (cases ev)
  case (Click b env)
  assume "session_inv s"
  then show ?thesis using Click by (simp add: session_inv_onClick)
next
  case (FileChange f)
  assume "session_inv s"
  then show ?thesis using FileChange by (simp add: session_inv_handleFileChange)
qed (auto simp: session_inv_def)

lemma session_inv_run: "session_inv s \<Longrightarrow> session_inv (run svc s evs)"
  unfolding run_def by (induction evs arbitrary: s) (simp_all add: session_inv_step)

lemma variant_buttons_ready:
  assumes "s = run svc (init key) evs" and "can_click s b"
    and "b = ConfirmButton \<or> b = RerollButton \<or> b = CustomVariantsButton"
  shows "ai s \<noteq> None \<and> uploadedImage s \<noteq> None"
proof -
  have "session_inv s" using assms(1) session_inv_init session_inv_run by simp
  moreover have "truthy (baseSticker s)" using assms(2,3) by (auto simp: can_click_def gallery_shown_def)
  ultimately show ?thesis by (simp add: session_inv_def)
qed

lemma svc_image_try: "generateImage_try (svc_image h r) = Inr (lit ''data:image/png;base64,BBBB'')"
  by (simp add: generateImage_try_def svc_image_def respond_def response_parts_def image_part_def
      text_part_def data_uri_def lit_def)

subsection \<open>Counting and numbering\<close>

lemma digits_small: "n < 10 \<Longrightarrow> digits n = [48 + n]"
  by (simp add: digits.simps)





section \<open>Variant generation: one call per caption, failures skipped\<close>



subsection \<open>Parsing and the sample sessions\<close>

lemma parse_actions_spec: "parse_actions text = requests_spec text"
  unfolding parse_actions_def requests_spec_def MAX_CUSTOM_VARIANTS_def
  by (simp add: filter_map comp_def trim_empty_iff)

lemma parse_actions_entries:
  assumes "a \<in> set (parse_actions text)"
  shows "a \<noteq> [] \<and> \<not> js_space (hd a) \<and> \<not> js_space (last a) \<and> comma \<notin> set a"
proof -
  from assms have "a \<in> set (filter (\<lambda>s. s \<noteq> []) (map trim (split_comma text)))"
    unfolding parse_actions_def by (rule in_set_takeD)
  then obtain p where p: "p \<in> set (split_comma text)" "a = trim p" "a \<noteq> []" by auto
  have "comma \<notin> set p" using p(1) split_from_no_comma [of "[]" p "text"] by (simp add: split_comma_def)
  moreover obtain l r where "p = l @ trim p @ r" using trim_decompose by blast
  ultimately have "comma \<notin> set (trim p)" by (metis Un_iff set_append)
  then show ?thesis using p trim_ends [of p] by simp
qed

lemma state_with_base_fields:
  "uploadedImage state_with_base = Some example_image \<and> consentChecked state_with_base
   \<and> ai state_with_base = Some example_key \<and> \<not> isLoading state_with_base
   \<and> baseSticker state_with_base = Some (lit ''data:image/png;base64,BBBB'')
   \<and> appStep state_with_base = base_generated \<and> variants state_with_base = []
   \<and> customVariantsPrompt state_with_base = default_customVariantsPrompt
   \<and> length (sent state_with_base) = 1"
  by (simp add: state_with_base_def run_def init_def example_key_def example_file_def
      example_image_def handleFileChange_def resetGeneration_def can_click_def
      isGenerateButtonDisabled_def handleGenerateBase_def generateImage_def svc_image_try Let_def)

lemma state_with_variants_step:
  "state_with_variants = step svc_image state_with_base (Click ConfirmButton example_env)"
  by (simp add: state_with_variants_def state_with_base_def run_def)

lemma state_with_variants_fields:
  "uploadedImage state_with_variants = Some example_image \<and> consentChecked state_with_variants
   \<and> ai state_with_variants = Some example_key \<and> \<not> isLoading state_with_variants
   \<and> baseSticker state_with_variants = Some (lit ''data:image/png;base64,BBBB'')
   \<and> appStep state_with_variants = variants_generated"
proof -
  have k: "can_click state_with_base ConfirmButton"
    using state_with_base_fields by (simp add: can_click_def gallery_shown_def)
  obtain m e x v where "generateVariants svc_image state_with_base (take 3 (shuffled example_env))
        (state_with_base\<lparr>loadingMessage := msg_loading_random\<rparr>) =
     state_with_base\<lparr>loadingMessage := msg_loading_random\<rparr>
       \<lparr>isLoading := False, loadingMessage := m, error := e, appStep := variants_generated,
        variants := v, sent := x\<rparr>"
    using generateVariants_frame by blast
  then show ?thesis
    using k state_with_base_fields
    by (simp add: state_with_variants_step handleGenerateVariants_def)
qed

lemma state_consent_withdrawn_eq:
  "state_consent_withdrawn = state_with_base\<lparr>consentChecked := False\<rparr>"
  by (simp add: state_consent_withdrawn_def state_with_base_def run_def)


section \<open>The custom request list\<close>

text \<open>
  Claim C5. The request list of the custom-variants text is the list the specification
  describes: the text is split at its commas (joining the pieces with commas gives the
  text back, and no piece contains a comma), the empty and white-space pieces are
  dropped, the others are trimmed, and the first 12 are kept, in order. So every
  request is non-empty, begins and ends with a code unit that is not white space and
  contains no comma, and there are at most 12 of them; when more than 12 pieces remain
  after the dropping, exactly the first 12 are requested. The text \<open>yes, no, ok\<close> gives
  the three requests \<open>yes\<close>, \<open>no\<close>, \<open>ok\<close>.
\<close>

theorem C5_parse_actions:
  "parse_actions text = requests_spec text
   \<and> join_comma (split_comma text) = text
   \<and> (\<forall>p\<in>set (split_comma text). comma \<notin> set p)
   \<and> (\<forall>a\<in>set (parse_actions text).
         a \<noteq> [] \<and> \<not> js_space (hd a) \<and> \<not> js_space (last a) \<and> comma \<notin> set a)
   \<and> length (parse_actions text) \<le> 12
   \<and> (12 < length (filter (\<lambda>e. \<not> blank e) (split_comma text)) \<longrightarrow>
        length (parse_actions text) = 12
        \<and> parse_actions text = take 12 (map trim (filter (\<lambda>e. \<not> blank e) (split_comma text))))
   \<and> parse_actions (lit ''yes, no, ok'') = [lit ''yes'', lit ''no'', lit ''ok'']"
proof -
  have 1: "parse_actions text = requests_spec text" by (rule parse_actions_spec)
  have 2: "join_comma (split_comma text) = text"
    by (simp add: split_comma_def join_split_from)
  have 3: "\<forall>p\<in>set (split_comma text). comma \<notin> set p"
    using split_from_no_comma [of "[]" _ "text"] by (simp add: split_comma_def)
  have 4: "\<forall>a\<in>set (parse_actions text).
         a \<noteq> [] \<and> \<not> js_space (hd a) \<and> \<not> js_space (last a) \<and> comma \<notin> set a"
    using parse_actions_entries by blast
  have 5: "length (parse_actions text) \<le> 12"
    by (simp add: parse_actions_def MAX_CUSTOM_VARIANTS_def)
  have 6: "length (parse_actions text) = 12
        \<and> parse_actions text = take 12 (map trim (filter (\<lambda>e. \<not> blank e) (split_comma text)))"
    if "12 < length (filter (\<lambda>e. \<not> blank e) (split_comma text))"
    using that unfolding 1 requests_spec_def by simp
  have 7: "parse_actions (lit ''yes, no, ok'') = [lit ''yes'', lit ''no'', lit ''ok'']"
    by (simp add: parse_actions_def split_comma_def lit_def comma_def trim_def js_space_def
        MAX_CUSTOM_VARIANTS_def)
  show ?thesis using 1 2 3 4 5 6 7 by blast
qed

theorem C5_parse_actions_witness:
  "12 < length (filter (\<lambda>e. \<not> blank e) (split_comma (lit ''a, b,,c,d,e ,f,g,h,i,j,k,l,m,n'')))
   \<and> parse_actions (lit ''a, b,,c,d,e ,f,g,h,i,j,k,l,m,n'') =
       [lit ''a'', lit ''b'', lit ''c'', lit ''d'', lit ''e'', lit ''f'', lit ''g'', lit ''h'',
        lit ''i'', lit ''j'', lit ''k'', lit ''l'']"
proof -
  let ?t = "lit ''a, b,,c,d,e ,f,g,h,i,j,k,l,m,n''"
  have s: "split_comma ?t =
      [lit ''a'', lit '' b'', lit [], lit ''c'', lit ''d'', lit ''e '', lit ''f'', lit ''g'',
       lit ''h'', lit ''i'', lit ''j'', lit ''k'', lit ''l'', lit ''m'', lit ''n'']"
    by (simp add: split_comma_def lit_def comma_def)
  have b: "12 < length (filter (\<lambda>e. \<not> blank e) (split_comma ?t))"
    unfolding s by (simp add: blank_def lit_def js_space_def)
  with C5_parse_actions [of ?t]
  have "parse_actions ?t = take 12 (map trim (filter (\<lambda>e. \<not> blank e) (split_comma ?t)))"
    by blast
  then have "parse_actions ?t =
       [lit ''a'', lit ''b'', lit ''c'', lit ''d'', lit ''e'', lit ''f'', lit ''g'', lit ''h'',
        lit ''i'', lit ''j'', lit ''k'', lit ''l'']"
    unfolding s by (simp add: blank_def lit_def js_space_def trim_def)
  with b show ?thesis by blast
qed


section \<open>A custom request without a valid caption\<close>

text \<open>
  Claim C10. The request list is empty exactly when the text consists of commas and
  white space only (the empty text included). Then \<open>handleGenerateCustomVariants\<close> sets
  the error and changes nothing else: no request is submitted, and the variants, the
  base sticker and the workflow state stay as they were.
\<close>

theorem C10_no_valid_action:
  "(parse_actions t = [] \<longleftrightarrow> (\<forall>ch\<in>set t. ch = comma \<or> js_space ch))
   \<and> (parse_actions (customVariantsPrompt c) = [] \<longrightarrow>
        handleGenerateCustomVariants svc c = c\<lparr>error := Some msg_no_valid_action\<rparr>
        \<and> sent (handleGenerateCustomVariants svc c) = sent c
        \<and> variants (handleGenerateCustomVariants svc c) = variants c
        \<and> baseSticker (handleGenerateCustomVariants svc c) = baseSticker c
        \<and> appStep (handleGenerateCustomVariants svc c) = appStep c)"
  by (simp add: parse_actions_empty_iff [symmetric] handleGenerateCustomVariants_def)

theorem C10_no_valid_action_witness:
  "parse_actions (customVariantsPrompt (state_with_variants\<lparr>customVariantsPrompt := lit '' , ,''\<rparr>)) = []
   \<and> can_click (state_with_variants\<lparr>customVariantsPrompt := lit '' , ,''\<rparr>) CustomVariantsButton
   \<and> step svc_image (state_with_variants\<lparr>customVariantsPrompt := lit '' , ,''\<rparr>)
        (Click CustomVariantsButton example_env) =
      state_with_variants\<lparr>customVariantsPrompt := lit '' , ,'', error := Some msg_no_valid_action\<rparr>"
proof -
  let ?c = "state_with_variants\<lparr>customVariantsPrompt := lit '' , ,''\<rparr>"
  have p: "parse_actions (customVariantsPrompt ?c) = []"
    by (simp add: parse_actions_empty_iff) (simp add: lit_def comma_def js_space_def)
  have t: "trim (lit '' , ,'') \<noteq> []"
    by (simp add: trim_def lit_def js_space_def)
  have k: "can_click ?c CustomVariantsButton"
    using state_with_variants_fields t by (simp add: can_click_def gallery_shown_def)
  show ?thesis
    using p k C10_no_valid_action [of "lit '' , ,''" ?c svc_image]
    by simp
qed

section \<open>Uploading a new image\<close>

text \<open>
  Claim C6. From every state, a file change whose file was read successfully sets the
  workflow state to \<open>upload\<close>, the base sticker to \<open>null\<close> and the variants to the
  empty list; the uploaded image becomes the file just read.
\<close>

theorem C6_upload_resets:
  "appStep (handleFileChange (Some \<lparr>object_url = u, read_result = ReadOk d m\<rparr>) s) = upload
   \<and> baseSticker (handleFileChange (Some \<lparr>object_url = u, read_result = ReadOk d m\<rparr>) s) = None
   \<and> variants (handleFileChange (Some \<lparr>object_url = u, read_result = ReadOk d m\<rparr>) s) = []
   \<and> uploadedImage (handleFileChange (Some \<lparr>object_url = u, read_result = ReadOk d m\<rparr>) s) =
       Some \<lparr>url = u, base64 = d, mimeType = m\<rparr>
   \<and> step svc s (FileChange (Some \<lparr>object_url = u, read_result = ReadOk d m\<rparr>)) =
       handleFileChange (Some \<lparr>object_url = u, read_result = ReadOk d m\<rparr>) s"
  by (simp add: handleFileChange_def resetGeneration_def)

theorem C6_upload_resets_witness:
  "appStep state_with_variants = variants_generated
   \<and> baseSticker state_with_variants = Some (lit ''data:image/png;base64,BBBB'')
   \<and> appStep (step svc_image state_with_variants (FileChange (Some example_file))) = upload
   \<and> baseSticker (step svc_image state_with_variants (FileChange (Some example_file))) = None
   \<and> variants (step svc_image state_with_variants (FileChange (Some example_file))) = []"
  using state_with_variants_fields
    C6_upload_resets [of "lit ''blob:1''" "lit ''AAAA''" "lit ''image/png''" state_with_variants svc_image]
  by (simp add: example_file_def)


section \<open>Metadata export\<close>

text \<open>
  Claim C9. When the style is not \<open>custom\<close>, the property \<open>customStyle\<close> of the
  metadata object is \<open>undefined\<close> and the exported document has no member of that
  name, whatever the custom-style text is; the other nine members are written.
\<close>

theorem C9_no_customStyle_field:
  assumes "style c \<noteq> lit ''custom''"
  shows "lit ''customStyle'' \<notin> fst ` set (document (last (downloads (handleExportMetadata t c))))
    \<and> map_of (document (last (downloads (handleExportMetadata t c)))) (lit ''customStyle'') = None
    \<and> map_of (metadata t c) (lit ''customStyle'') = Some JUndefined
    \<and> map fst (document (last (downloads (handleExportMetadata t c)))) =
        [lit ''style'', lit ''styleStrength'', lit ''userPrompt'', lit ''lockCharacter'',
         lit ''faceConsistency'', lit ''textIntent'', lit ''textMode'', lit ''timestamp'',
         lit ''model'']"
  using assms
  by (simp add: handleExportMetadata_def downloadJson_def JSON_stringify_def metadata_def)

theorem C9_no_customStyle_field_witness:
  "style (step svc_image (step svc_image (step svc_image (init None) (StyleChange (lit ''custom'')))
            (CustomStyleChange (lit ''ink wash''))) (StyleChange (lit ''mosaic''))) \<noteq> lit ''custom''
   \<and> customStyle (step svc_image (step svc_image (step svc_image (init None) (StyleChange (lit ''custom'')))
            (CustomStyleChange (lit ''ink wash''))) (StyleChange (lit ''mosaic''))) = lit ''ink wash''
   \<and> map_of (document (last (downloads (handleExportMetadata (lit ''now'')
          (step svc_image (step svc_image (step svc_image (init None) (StyleChange (lit ''custom'')))
            (CustomStyleChange (lit ''ink wash''))) (StyleChange (lit ''mosaic'')))))))
        (lit ''customStyle'') = None"
proof -
  let ?s = "step svc_image (step svc_image (step svc_image (init None) (StyleChange (lit ''custom'')))
            (CustomStyleChange (lit ''ink wash''))) (StyleChange (lit ''mosaic''))"
  have a: "style ?s \<noteq> lit ''custom''" by (simp add: STYLES_def)
  have b: "customStyle ?s = lit ''ink wash''" by (simp add: STYLES_def)
  show ?thesis using a b C9_no_customStyle_field [OF a, of "lit ''now''"] by blast
qed

section \<open>The workflow state\<close>

lemma svc_down_try: "generateImage_try (svc_down h r) = Inl (Error (lit ''quota''))"
  by (simp add: generateImage_try_def svc_down_def)

lemma base_result_ready:
  assumes "ai s = Some k" and "uploadedImage s = Some img"
  shows "base_result svc s =
     (case generateImage_try (svc (sent s) (make_request img (base_prompt s))) of
        Inr u \<Rightarrow> Some u | Inl e \<Rightarrow> None)"
  using assms by (simp add: base_result_def generateImage_ready split: sum.splits)

lemma sent_handleGenerateBase:
  assumes "ai s = Some k" and "uploadedImage s = Some img"
  shows "sent (handleGenerateBase svc s) = sent s @ [make_request img (base_prompt s)]"
  using assms
  by (simp add: handleGenerateBase_def generateImage_ready Let_def split: sum.splits)

lemma appStep_handleGenerateBase:
  "appStep (handleGenerateBase svc s) = (if truthy (base_result svc s) then base_generated else appStep s)"
proof -
  let ?s1 = "s\<lparr>error := None, isLoading := True, loadingMessage := msg_loading_base\<rparr>"
  obtain r s2 where rs: "generateImage svc s (base_prompt s) ?s1 = (r, s2)"
    by (cases "generateImage svc s (base_prompt s) ?s1")
  obtain x e where "snd (generateImage svc s (base_prompt s) ?s1) = ?s1\<lparr>error := e, sent := x\<rparr>"
    using generateImage_frame by blast
  with rs have s2: "s2 = ?s1\<lparr>error := e, sent := x\<rparr>" by simp
  show ?thesis using rs s2 by (simp add: handleGenerateBase_def base_result_def Let_def)
qed

lemma appStep_generateVariants:
  "appStep (generateVariants svc c actions s) = variants_generated"
  using generateVariants_frame [of svc c actions s] by auto

lemma appStep_onClick:
  "appStep (onClick svc b env s) =
     (if b = GenerateBaseButton \<or> b = RegenerateButton
      then (if truthy (base_result svc s) then base_generated else appStep s)
      else if b = ConfirmButton \<or> b = RerollButton then variants_generated
      else if b = CustomVariantsButton
      then (if parse_actions (customVariantsPrompt s) = [] then appStep s else variants_generated)
      else appStep s)"
  by (cases b)
    (simp_all add: appStep_handleGenerateBase appStep_generateVariants handleGenerateVariants_def
      handleGenerateCustomVariants_def handleExportMetadata_def downloadJson_def)

lemma appStep_step_other:
  assumes "\<not> successful_upload ev" and "\<And>b env. ev \<noteq> Click b env"
  shows "appStep (step svc s ev) = appStep s"
  using assms
  by (cases ev) (auto simp: handleFileChange_def split: option.splits file_read.splits)

lemma step_not_upload:
  assumes "\<not> successful_upload ev" and "appStep s \<noteq> upload"
  shows "appStep (step svc s ev) \<noteq> upload"
proof (cases ev)
  case (Click b env)
  then show ?thesis using assms(2) by (simp add: appStep_onClick)
qed (use assms in \<open>auto simp: handleFileChange_def split: option.splits file_read.splits\<close>)

lemma run_not_upload:
  assumes "\<not> list_ex successful_upload evs" and "appStep s \<noteq> upload"
  shows "appStep (run svc s evs) \<noteq> upload"
  using assms unfolding run_def
  by (induction evs arbitrary: s) (simp_all add: step_not_upload)


text \<open>
  Claim C2, as the specification words it, does not hold: the workflow state can go
  back from \<open>variants_generated\<close> to \<open>base_generated\<close>, and it can advance although
  every call failed. In the session that ends with generated variants the first button
  is enabled, and a click on it that returns an image sets the state to
  \<open>base_generated\<close>. From the session that ends with the base sticker, a click on the
  confirm button while the service rejects every call stores no variant, sets an error
  and still sets the state to \<open>variants_generated\<close>.
\<close>

theorem C2_backward_and_failed_advance:
  "appStep state_with_variants = variants_generated
   \<and> can_click state_with_variants GenerateBaseButton
   \<and> appStep (step svc_image state_with_variants (Click GenerateBaseButton example_env)) = base_generated
   \<and> appStep state_with_base = base_generated
   \<and> can_click state_with_base ConfirmButton
   \<and> variants (step svc_down state_with_base (Click ConfirmButton example_env)) = []
   \<and> error (step svc_down state_with_base (Click ConfirmButton example_env)) \<noteq> None
   \<and> appStep (step svc_down state_with_base (Click ConfirmButton example_env)) = variants_generated"
proof -
  note v = state_with_variants_fields and b = state_with_base_fields
  have k1: "can_click state_with_variants GenerateBaseButton"
    using v by (simp add: can_click_def isGenerateButtonDisabled_def)
  have "base_result svc_image state_with_variants = Some (lit ''data:image/png;base64,BBBB'')"
    using v by (simp add: base_result_ready [of _ example_key example_image] svc_image_try)
  then have r1: "truthy (base_result svc_image state_with_variants)" by simp
  have a1: "appStep (step svc_image state_with_variants (Click GenerateBaseButton example_env)) = base_generated"
    using k1 r1 by (simp add: appStep_handleGenerateBase)
  have k2: "can_click state_with_base ConfirmButton"
    using b by (simp add: can_click_def gallery_shown_def)
  let ?s1 = "state_with_base\<lparr>loadingMessage := msg_loading_random\<rparr>
               \<lparr>error := None, isLoading := True, variants := []\<rparr>"
  let ?acts = "take 3 (shuffled example_env)"
  have acts: "?acts = [ [0x8DD1, 0x6B65], [0x63EE, 0x624B], [0x62FF, 0x8457, 0x5496, 0x5561] ]"
    by (simp add: example_env_def RANDOM_ACTIONS_def)
  have ai: "ai state_with_base = Some example_key" and up: "uploadedImage state_with_base = Some example_image"
    using b by simp_all
  have g: "step svc_down state_with_base (Click ConfirmButton example_env) =
      (snd (variants_loop svc_down state_with_base ?acts [] ?s1))
        \<lparr>variants := fst (variants_loop svc_down state_with_base ?acts [] ?s1),
         appStep := variants_generated, isLoading := False\<rparr>"
    using k2 by (simp add: handleGenerateVariants_def generateVariants_def Let_def split_beta)
  have f: "fst (variants_loop svc_down state_with_base ?acts [] ?s1) = []"
    unfolding loop_fst [OF ai up] acts by (simp add: variant_requests_def svc_down_try)
  have e: "error (snd (variants_loop svc_down state_with_base ?acts [] ?s1)) \<noteq> None"
    unfolding loop_error [OF ai up] acts by (simp add: variant_requests_def svc_down_try)
  show ?thesis using v b k1 a1 k2 f e unfolding g by simp
qed


text \<open>
  Claim C2, amended. The workflow state is one of \<open>upload\<close>, \<open>base_generated\<close>,
  \<open>variants_generated\<close>. A successful upload sets it to \<open>upload\<close>, and no other event
  and no session without a successful upload brings it back to \<open>upload\<close>. A base
  generation, from either of its two buttons, sets it to \<open>base_generated\<close> when the call
  returned an image and leaves it unchanged when the call failed. A variant generation
  from any of its three buttons ends in \<open>variants_generated\<close>, whether or not a caption
  succeeded. Every event either leaves the state unchanged, or is a successful upload,
  or is a base generation that returned an image, or is the confirmation in
  \<open>base_generated\<close>. The only steps backward are the successful upload and the base
  generation that the first button starts in \<open>variants_generated\<close>.
\<close>

theorem C2_appStep_transitions:
  "(successful_upload ev \<longrightarrow> appStep (step svc s ev) = upload)
   \<and> (\<not> successful_upload ev \<and> appStep s \<noteq> upload \<longrightarrow> appStep (step svc s ev) \<noteq> upload)
   \<and> (\<not> list_ex successful_upload evs \<and> appStep s \<noteq> upload \<longrightarrow> appStep (run svc s evs) \<noteq> upload)
   \<and> ((b = GenerateBaseButton \<or> b = RegenerateButton) \<and> can_click s b \<longrightarrow>
        appStep (step svc s (Click b env)) =
          (if truthy (base_result svc s) then base_generated else appStep s))
   \<and> ((b = ConfirmButton \<or> b = RerollButton \<or> b = CustomVariantsButton) \<and> can_click s b \<longrightarrow>
        appStep (step svc s (Click b env)) = variants_generated)
   \<and> (appStep (step svc s ev) = appStep s
       \<or> successful_upload ev
       \<or> (\<exists>b env. ev = Click b env \<and> (b = GenerateBaseButton \<or> b = RegenerateButton) \<and>
             can_click s b \<and> truthy (base_result svc s) \<and>
             appStep (step svc s ev) = base_generated)
       \<or> (\<exists>env. ev = Click ConfirmButton env \<and> can_click s ConfirmButton \<and>
             appStep s = base_generated \<and> appStep (step svc s ev) = variants_generated))
   \<and> (rank (appStep s) \<le> rank (appStep (step svc s ev))
       \<or> successful_upload ev
       \<or> (\<exists>env. ev = Click GenerateBaseButton env \<and> appStep s = variants_generated \<and>
             truthy (base_result svc s) \<and> appStep (step svc s ev) = base_generated))
   \<and> appStep (run svc s evs) \<in> {upload, base_generated, variants_generated}"
proof -
  have 0: "appStep (run svc s evs) \<in> {upload, base_generated, variants_generated}"
    by (cases "appStep (run svc s evs)") simp_all
  have 1: "appStep (step svc s ev) = upload" if "successful_upload ev"
    using that by (cases ev rule: successful_upload.cases)
      (auto simp: handleFileChange_def resetGeneration_def split: file_read.splits)
  have 2: "appStep (step svc s ev) \<noteq> upload" if "\<not> successful_upload ev \<and> appStep s \<noteq> upload"
    using that step_not_upload by blast
  have 3: "appStep (run svc s evs) \<noteq> upload" if "\<not> list_ex successful_upload evs \<and> appStep s \<noteq> upload"
    using that run_not_upload by blast
  have 4: "appStep (step svc s (Click b env)) =
          (if truthy (base_result svc s) then base_generated else appStep s)"
    if "(b = GenerateBaseButton \<or> b = RegenerateButton) \<and> can_click s b"
    using that by (auto simp: appStep_onClick)
  have 5: "appStep (step svc s (Click b env)) = variants_generated"
    if "(b = ConfirmButton \<or> b = RerollButton \<or> b = CustomVariantsButton) \<and> can_click s b"
    using that by (auto simp: appStep_onClick can_click_def)
  have 6: "appStep (step svc s ev) = appStep s
       \<or> successful_upload ev
       \<or> (\<exists>b env. ev = Click b env \<and> (b = GenerateBaseButton \<or> b = RegenerateButton) \<and>
             can_click s b \<and> truthy (base_result svc s) \<and>
             appStep (step svc s ev) = base_generated)
       \<or> (\<exists>env. ev = Click ConfirmButton env \<and> can_click s ConfirmButton \<and>
             appStep s = base_generated \<and> appStep (step svc s ev) = variants_generated)"
  proof (cases "\<exists>b env. ev = Click b env")
    case True
    then obtain b env where ev: "ev = Click b env" by blast
    show ?thesis
    proof (cases "can_click s b")
      case True
      then have st: "appStep (step svc s (Click b env)) = appStep (onClick svc b env s)" by simp
      have "appStep s = variants_generated" if "b = RerollButton \<or> b = CustomVariantsButton"
        using that True by (auto simp: can_click_def)
      moreover have "appStep s = base_generated" if "b = ConfirmButton"
        using that True by (auto simp: can_click_def)
      ultimately show ?thesis using True unfolding ev st appStep_onClick
        by (cases b) auto
    next
      case False
      then show ?thesis unfolding ev by simp
    qed
  next
    case False
    then show ?thesis using appStep_step_other [of ev svc s] by blast
  qed
  have 7: "rank (appStep s) \<le> rank (appStep (step svc s ev))
       \<or> successful_upload ev
       \<or> (\<exists>env. ev = Click GenerateBaseButton env \<and> appStep s = variants_generated \<and>
             truthy (base_result svc s) \<and> appStep (step svc s ev) = base_generated)"
  proof (cases "\<exists>b env. ev = Click b env")
    case True
    then obtain b env where ev: "ev = Click b env" by blast
    show ?thesis
    proof (cases "can_click s b")
      case True
      then have st: "appStep (step svc s (Click b env)) = appStep (onClick svc b env s)" by simp
      have "appStep s = variants_generated" if "b = RerollButton \<or> b = CustomVariantsButton"
        using that True by (auto simp: can_click_def)
      moreover have "appStep s = base_generated" if "b = ConfirmButton \<or> b = RegenerateButton"
        using that True by (auto simp: can_click_def)
      ultimately show ?thesis unfolding ev st appStep_onClick
        by (cases b; cases "appStep s") auto
    next
      case False
      then show ?thesis unfolding ev by simp
    qed
  next
    case False
    then show ?thesis using appStep_step_other [of ev svc s] by (cases "successful_upload ev") auto
  qed
  show ?thesis using 0 1 2 3 4 5 6 7 by blast
qed

theorem C2_appStep_transitions_witness:
  "can_click state_with_base RegenerateButton
   \<and> truthy (base_result svc_image state_with_base)
   \<and> appStep (step svc_image state_with_base (Click RegenerateButton example_env)) = base_generated
   \<and> \<not> truthy (base_result svc_down state_with_base)
   \<and> appStep (step svc_down state_with_base (Click RegenerateButton example_env)) = base_generated
   \<and> successful_upload (FileChange (Some example_file))
   \<and> appStep (step svc_image state_with_base (FileChange (Some example_file))) = upload
   \<and> can_click state_with_base ConfirmButton
   \<and> appStep (step svc_down state_with_base (Click ConfirmButton example_env)) = variants_generated"
proof -
  note b = state_with_base_fields
  have k: "can_click state_with_base RegenerateButton" "can_click state_with_base ConfirmButton"
    using b by (simp_all add: can_click_def gallery_shown_def)
  have r1: "truthy (base_result svc_image state_with_base)"
    using b by (simp add: base_result_ready [of _ example_key example_image] svc_image_try)
  have r2: "\<not> truthy (base_result svc_down state_with_base)"
    using b by (simp add: base_result_ready [of _ example_key example_image] svc_down_try)
  have u: "successful_upload (FileChange (Some example_file))"
    by (simp add: example_file_def)
  show ?thesis
    using b k r1 r2 u
      C2_appStep_transitions [of "FileChange (Some example_file)" svc_image state_with_base "[]"
        RegenerateButton example_env]
      C2_appStep_transitions [of "FileChange (Some example_file)" svc_down state_with_base "[]"
        RegenerateButton example_env]
      C2_appStep_transitions [of "FileChange (Some example_file)" svc_down state_with_base "[]"
        ConfirmButton example_env]
    by simp
qed


section \<open>The consent gate of the base generation\<close>

text \<open>
  Claim C7 says that without consent the base generation cannot be triggered from any
  button. The code at a state that contradicts it: in the session where the user
  uploads, consents, generates the base sticker and withdraws the consent, an image is
  uploaded, the consent is unchecked and nothing is loading. The first button is
  disabled there, as the claim says, but the regenerate button is rendered and
  enabled, and a click on it runs \<open>handleGenerateBase\<close> and submits a request for the
  base sticker.
\<close>

theorem C7_regenerate_without_consent:
  "uploadedImage state_consent_withdrawn = Some example_image
   \<and> \<not> consentChecked state_consent_withdrawn
   \<and> \<not> isLoading state_consent_withdrawn
   \<and> disabled state_consent_withdrawn GenerateBaseButton
   \<and> can_click state_consent_withdrawn RegenerateButton
   \<and> step svc_image state_consent_withdrawn (Click RegenerateButton example_env) =
       handleGenerateBase svc_image state_consent_withdrawn
   \<and> sent (step svc_image state_consent_withdrawn (Click RegenerateButton example_env)) =
       sent state_consent_withdrawn @
         [make_request example_image (base_prompt state_consent_withdrawn)]"
proof -
  note b = state_with_base_fields
  let ?s = "state_with_base\<lparr>consentChecked := False\<rparr>"
  have k: "can_click ?s RegenerateButton"
    using b by (simp add: can_click_def gallery_shown_def)
  have d: "disabled ?s GenerateBaseButton"
    by (simp add: isGenerateButtonDisabled_def)
  have s: "sent (handleGenerateBase svc_image ?s) = sent ?s @ [make_request example_image (base_prompt ?s)]"
    using b by (intro sent_handleGenerateBase [of _ example_key]) simp_all
  show ?thesis
    unfolding state_consent_withdrawn_eq using b k d s by simp
qed

section \<open>The two prompt templates\<close>

lemma digits_nonempty: "digits n \<noteq> []"
  by (subst digits.simps) simp

lemma digits_0: "digits 0 = lit ''0''"
  by (simp add: digits_small lit_def)

lemma digits_70: "digits 70 = lit ''70''"
  by (simp add: digits.simps [of 70] digits_small lit_def)

lemma digits_100: "digits 100 = lit ''100''"
  by (simp add: digits.simps [of 100] digits.simps [of 10] digits_small lit_def)

lemma stylePrompt_settings [simp]:
  "stylePrompt (c\<lparr>styleStrength := n\<rparr>) = stylePrompt c"
  by (simp add: stylePrompt_def)

lemma variant_prompt_strength:
  "variant_prompt (c\<lparr>styleStrength := n\<rparr>) a = variant_prompt c a"
  by (simp add: variant_prompt_def lock_clause_def face_clause_def)

lemma init_settings:
  "style (init k) = lit ''cute'' \<and> userPrompt (init k) = [] \<and> styleStrength (init k) = 70
   \<and> lockCharacter (init k) \<and> \<not> faceConsistency (init k) \<and> customStyle (init k) = []"
  by (simp add: init_def)

lemma stylePrompt_init: "tpl (stylePrompt (init k)) = [0x53EF, 0x611B]"
  by (simp add: stylePrompt_def init_settings STYLES_def)

section \<open>The generation client: first image, or a failure\<close>

text \<open>
  Claim C3, as the specification words it, does not hold: a failed call is not a
  failure distinct from a response without an image. Both leave the \<open>try\<close> block by a
  thrown error and are handled by the one \<open>catch\<close> block, which sets the error to the
  generation-failed prefix followed by the message and returns \<open>null\<close>. With a client
  and an uploaded image, a call rejected with an error whose message is the no-image
  text gives the same result and the same state as a response that has only a text
  part.
\<close>

theorem C3_failures_not_distinct:
  "ai state_ready = Some example_key
   \<and> uploadedImage state_ready = Some example_image
   \<and> generateImage (\<lambda>h r. Rejected (Error msg_no_image)) state_ready (lit ''p'') state_ready =
       generateImage (\<lambda>h r. respond [text_part]) state_ready (lit ''p'') state_ready
   \<and> generateImage (\<lambda>h r. respond [text_part]) state_ready (lit ''p'') state_ready =
       (None,
        state_ready\<lparr>sent := sent state_ready @ [make_request example_image (lit ''p'')],
                     error := Some (msg_generation_failed @ msg_no_image)\<rparr>)"
proof -
  have a: "ai state_ready = Some example_key"
    by (simp add: state_ready_def init_def example_key_def)
  have u: "uploadedImage state_ready = Some example_image"
    by (simp add: state_ready_def)
  have t: "generateImage_try (respond [text_part]) = Inl (Error msg_no_image)"
    by (simp add: generateImage_try_def respond_def response_parts_def text_part_def)
  show ?thesis
    using a u by (simp add: generateImage_ready [OF a u] t) (simp add: generateImage_try_def)
qed


text \<open>
  Claim C3, amended. With a client and an uploaded image, \<open>generateImage\<close> submits one
  request (the model name, the uploaded image and the prompt) and, whatever the service
  answers, ends in one of these ways. If the call is fulfilled and some part of the
  first candidate has inline data, the result is the data URI of the first such part,
  \<open>data:\<close> followed by its media type, \<open>;base64,\<close> and its payload, and no error is
  set. In every other case the result is \<open>null\<close> and the error is the one
  generation-failed prefix followed by a message: the no-image text when the call is
  fulfilled and no part of the first candidate has inline data, the message of the
  thrown error when the call is rejected with an error, and the unknown-error text when
  it is rejected with something else. The parts read are those of the first candidate
  and none when a level of the response is missing; a missing media type or payload is
  written as \<open>undefined\<close>.
\<close>

theorem C3_generateImage:
  assumes "ai c = Some k" and "uploadedImage c = Some img"
  shows "generateImage svc c p s =
     (case svc (sent s)
             \<lparr>req_model = lit ''gemini-2.5-flash-image-preview'', req_data = base64 img,
              req_mimeType = mimeType img, req_text = p\<rparr> of
        Fulfilled r \<Rightarrow>
          (case List.map_filter inlineData (response_parts r) of
             b # _ \<Rightarrow>
               (Some (lit ''data:'' @ tpl (inline_mimeType b) @ lit '';base64,'' @ tpl (inline_data b)),
                s\<lparr>sent := sent s @
                     [\<lparr>req_model = lit ''gemini-2.5-flash-image-preview'', req_data = base64 img,
                       req_mimeType = mimeType img, req_text = p\<rparr>]\<rparr>)
           | [] \<Rightarrow>
               (None,
                s\<lparr>sent := sent s @
                     [\<lparr>req_model = lit ''gemini-2.5-flash-image-preview'', req_data = base64 img,
                       req_mimeType = mimeType img, req_text = p\<rparr>],
                  error := Some (msg_generation_failed @ msg_no_image)\<rparr>))
      | Rejected (Error t) \<Rightarrow>
          (None,
           s\<lparr>sent := sent s @
                [\<lparr>req_model = lit ''gemini-2.5-flash-image-preview'', req_data = base64 img,
                  req_mimeType = mimeType img, req_text = p\<rparr>],
             error := Some (msg_generation_failed @ t)\<rparr>)
      | Rejected NonError \<Rightarrow>
          (None,
           s\<lparr>sent := sent s @
                [\<lparr>req_model = lit ''gemini-2.5-flash-image-preview'', req_data = base64 img,
                  req_mimeType = mimeType img, req_text = p\<rparr>],
             error := Some (msg_generation_failed @ msg_unknown_error)\<rparr>))
    \<and> response_parts \<lparr>candidates = Some (\<lparr>content = Some \<lparr>parts = Some ps\<rparr>\<rparr> # cs)\<rparr> = ps
    \<and> response_parts \<lparr>candidates = Some (\<lparr>content = Some \<lparr>parts = None\<rparr>\<rparr> # cs)\<rparr> = []
    \<and> response_parts \<lparr>candidates = Some (\<lparr>content = None\<rparr> # cs)\<rparr> = []
    \<and> response_parts \<lparr>candidates = Some []\<rparr> = []
    \<and> response_parts \<lparr>candidates = None\<rparr> = []
    \<and> tpl (Some m) = m
    \<and> tpl None = lit ''undefined''"
  using assms
  by (simp add: generateImage_ready generateImage_try_def scan_parts_map_filter data_uri_def
      make_request_def API_MODEL_def response_parts_def
      split: api_outcome.splits list.splits thrown.splits)

theorem C3_generateImage_witness:
  "ai state_ready = Some example_key \<and> uploadedImage state_ready = Some example_image \<and>
   generateImage svc_image state_ready (lit ''p'') state_ready =
     (Some (lit ''data:image/png;base64,BBBB''),
      state_ready\<lparr>sent := sent state_ready @ [make_request example_image (lit ''p'')]\<rparr>) \<and>
   generateImage svc_down state_ready (lit ''p'') state_ready =
     (None,
      state_ready\<lparr>sent := sent state_ready @ [make_request example_image (lit ''p'')],
                   error := Some (msg_generation_failed @ lit ''quota'')\<rparr>) \<and>
   generateImage (\<lambda>h r. Rejected NonError) state_ready (lit ''p'') state_ready =
     (None,
      state_ready\<lparr>sent := sent state_ready @ [make_request example_image (lit ''p'')],
                   error := Some (msg_generation_failed @ msg_unknown_error)\<rparr>) \<and>
   generateImage (\<lambda>h r. respond [text_part]) state_ready (lit ''p'') state_ready =
     (None,
      state_ready\<lparr>sent := sent state_ready @ [make_request example_image (lit ''p'')],
                   error := Some (msg_generation_failed @ msg_no_image)\<rparr>)"
proof -
  have a: "ai state_ready = Some example_key"
    by (simp add: state_ready_def init_def example_key_def)
  have u: "uploadedImage state_ready = Some example_image"
    by (simp add: state_ready_def)
  have m: "make_request example_image (lit ''p'') =
      \<lparr>req_model = lit ''gemini-2.5-flash-image-preview'', req_data = base64 example_image,
       req_mimeType = mimeType example_image, req_text = lit ''p''\<rparr>"
    by (simp add: make_request_def API_MODEL_def)
  have d: "lit ''data:'' @ lit ''image/png'' @ lit '';base64,'' @ lit ''BBBB'' =
      lit ''data:image/png;base64,BBBB''"
    by (simp add: lit_def)
  show ?thesis
    unfolding m
    using a u C3_generateImage [OF a u, of svc_image "lit ''p''" state_ready]
      C3_generateImage [OF a u, of svc_down "lit ''p''" state_ready]
      C3_generateImage [OF a u, of "\<lambda>h r. Rejected NonError" "lit ''p''" state_ready]
      C3_generateImage [OF a u, of "\<lambda>h r. respond [text_part]" "lit ''p''" state_ready]
    by (simp add: svc_image_def svc_down_def respond_def List.map_filter_simps
        text_part_def image_part_def d)
qed


section \<open>Metadata export: the document\<close>

text \<open>
  Claim C8. From every state, \<open>handleExportMetadata\<close> offers one more document for
  download, named \<open>metadata.json\<close>, with these members in this order: the style, the
  custom style when the style is \<open>custom\<close>, the strength, the description, the two
  flags, the text intent, the text mode, the time stamp and the model name. After the
  style was set to \<open>custom\<close> and the custom style to \<open>ink wash\<close>, the member
  \<open>customStyle\<close> of the exported document is \<open>ink wash\<close> and the member \<open>style\<close> is
  \<open>custom\<close>.
\<close>

theorem C8_export_metadata:
  "downloads (handleExportMetadata t c) =
     downloads c @
       [\<lparr>filename = lit ''metadata.json'',
         document =
           [(lit ''style'', JString (style c))]
           @ (if style c = lit ''custom'' then [(lit ''customStyle'', JString (customStyle c))] else [])
           @ [(lit ''styleStrength'', JNumber (styleStrength c)),
              (lit ''userPrompt'', JString (userPrompt c)),
              (lit ''lockCharacter'', JBool (lockCharacter c)),
              (lit ''faceConsistency'', JBool (faceConsistency c)),
              (lit ''textIntent'', JString (textIntent c)),
              (lit ''textMode'',
                 JString (case textMode c of
                            guide_only \<Rightarrow> lit ''guide_only''
                          | render_to_image \<Rightarrow> lit ''render_to_image'')),
              (lit ''timestamp'', JString t),
              (lit ''model'', JString (lit ''gemini-2.5-flash-image-preview''))]\<rparr>]
   \<and> JSON_stringify (metadata t (c\<lparr>style := lit ''custom''\<rparr>)) =
       [(lit ''style'', JString (lit ''custom'')),
        (lit ''customStyle'', JString (customStyle c)),
        (lit ''styleStrength'', JNumber (styleStrength c)),
        (lit ''userPrompt'', JString (userPrompt c)),
        (lit ''lockCharacter'', JBool (lockCharacter c)),
        (lit ''faceConsistency'', JBool (faceConsistency c)),
        (lit ''textIntent'', JString (textIntent c)),
        (lit ''textMode'', JString (textMode_str (textMode c))),
        (lit ''timestamp'', JString t),
        (lit ''model'', JString API_MODEL)]
   \<and> map_of (document (last (downloads (handleExportMetadata t
         (step svc (step svc c (StyleChange (lit ''custom''))) (CustomStyleChange (lit ''ink wash'')))))))
       (lit ''customStyle'') = Some (JString (lit ''ink wash''))
   \<and> map_of (document (last (downloads (handleExportMetadata t
         (step svc (step svc c (StyleChange (lit ''custom''))) (CustomStyleChange (lit ''ink wash'')))))))
       (lit ''style'') = Some (JString (lit ''custom''))"
proof -
  have 1: "downloads (handleExportMetadata t c) =
     downloads c @
       [\<lparr>filename = lit ''metadata.json'',
         document =
           [(lit ''style'', JString (style c))]
           @ (if style c = lit ''custom'' then [(lit ''customStyle'', JString (customStyle c))] else [])
           @ [(lit ''styleStrength'', JNumber (styleStrength c)),
              (lit ''userPrompt'', JString (userPrompt c)),
              (lit ''lockCharacter'', JBool (lockCharacter c)),
              (lit ''faceConsistency'', JBool (faceConsistency c)),
              (lit ''textIntent'', JString (textIntent c)),
              (lit ''textMode'',
                 JString (case textMode c of
                            guide_only \<Rightarrow> lit ''guide_only''
                          | render_to_image \<Rightarrow> lit ''render_to_image'')),
              (lit ''timestamp'', JString t),
              (lit ''model'', JString (lit ''gemini-2.5-flash-image-preview''))]\<rparr>]"
    by (cases "textMode c")
      (simp_all add: handleExportMetadata_def downloadJson_def JSON_stringify_def metadata_def
        API_MODEL_def)
  have 2: "JSON_stringify (metadata t (c\<lparr>style := lit ''custom''\<rparr>)) =
       [(lit ''style'', JString (lit ''custom'')),
        (lit ''customStyle'', JString (customStyle c)),
        (lit ''styleStrength'', JNumber (styleStrength c)),
        (lit ''userPrompt'', JString (userPrompt c)),
        (lit ''lockCharacter'', JBool (lockCharacter c)),
        (lit ''faceConsistency'', JBool (faceConsistency c)),
        (lit ''textIntent'', JString (textIntent c)),
        (lit ''textMode'', JString (textMode_str (textMode c))),
        (lit ''timestamp'', JString t),
        (lit ''model'', JString API_MODEL)]"
    by (simp add: JSON_stringify_def metadata_def)
  have 3: "map_of (document (last (downloads (handleExportMetadata t
         (step svc (step svc c (StyleChange (lit ''custom''))) (CustomStyleChange (lit ''ink wash'')))))))
       (lit ''customStyle'') = Some (JString (lit ''ink wash''))
   \<and> map_of (document (last (downloads (handleExportMetadata t
         (step svc (step svc c (StyleChange (lit ''custom''))) (CustomStyleChange (lit ''ink wash'')))))))
       (lit ''style'') = Some (JString (lit ''custom''))"
    by (simp add: handleExportMetadata_def downloadJson_def JSON_stringify_def metadata_def STYLES_def)
  show ?thesis using 1 2 3 by blast
qed

theorem C8_export_metadata_witness:
  "map_of (document (last (downloads (step svc_image
      (step svc_image (step svc_image state_with_base (StyleChange (lit ''custom'')))
         (CustomStyleChange (lit ''ink wash'')))
      (Click ExportMetadataButton example_env)))))
     (lit ''customStyle'') = Some (JString (lit ''ink wash''))
   \<and> document (last (downloads (step svc_image (init (Some example_key)\<lparr>appStep := base_generated\<rparr>)
         (Click ExportMetadataButton example_env)))) =
       [(lit ''style'', JString (lit ''cute'')),
        (lit ''styleStrength'', JNumber 70),
        (lit ''userPrompt'', JString []),
        (lit ''lockCharacter'', JBool True),
        (lit ''faceConsistency'', JBool False),
        (lit ''textIntent'', JString []),
        (lit ''textMode'', JString (lit ''guide_only'')),
        (lit ''timestamp'', JString (lit ''2025-01-01T00:00:00.000Z'')),
        (lit ''model'', JString (lit ''gemini-2.5-flash-image-preview''))]"
proof -
  let ?s = "step svc_image (step svc_image state_with_base (StyleChange (lit ''custom'')))
         (CustomStyleChange (lit ''ink wash''))"
  let ?i = "init (Some example_key)\<lparr>appStep := base_generated\<rparr>"
  have "appStep ?s = base_generated \<and> \<not> isLoading ?s"
    using state_with_base_fields by (simp add: STYLES_def)
  then have k: "can_click ?s ExportMetadataButton" by (simp add: can_click_def)
  have 1: "map_of (document (last (downloads (step svc_image ?s (Click ExportMetadataButton example_env)))))
     (lit ''customStyle'') = Some (JString (lit ''ink wash''))"
  proof -
    have "step svc_image ?s (Click ExportMetadataButton example_env) =
        handleExportMetadata (now example_env) ?s"
      using k by simp
    then show ?thesis
      using C8_export_metadata [of "now example_env" state_with_base svc_image] by simp
  qed
  have ki: "can_click ?i ExportMetadataButton" by (simp add: can_click_def init_def)
  have 2: "document (last (downloads (step svc_image ?i (Click ExportMetadataButton example_env)))) =
       [(lit ''style'', JString (lit ''cute'')),
        (lit ''styleStrength'', JNumber 70),
        (lit ''userPrompt'', JString []),
        (lit ''lockCharacter'', JBool True),
        (lit ''faceConsistency'', JBool False),
        (lit ''textIntent'', JString []),
        (lit ''textMode'', JString (lit ''guide_only'')),
        (lit ''timestamp'', JString (lit ''2025-01-01T00:00:00.000Z'')),
        (lit ''model'', JString (lit ''gemini-2.5-flash-image-preview''))]"
  proof -
    have "step svc_image ?i (Click ExportMetadataButton example_env) =
        handleExportMetadata (now example_env) ?i"
      using ki by simp
    moreover have "downloads ?i = []" by (simp add: init_def)
    ultimately show ?thesis
      using C8_export_metadata [of "now example_env" ?i svc_image]
      by (simp add: init_def example_env_def)
  qed
  show ?thesis using 1 2 by blast
qed


section \<open>The two prompt templates: statements\<close>

lemma digits_value: "foldl (\<lambda>v d. 10 * v + (d - 48)) 0 (digits n) = n"
proof (induction n rule: digits.induct)
  case (1 n)
  show ?case
  proof (cases "n < 10")
    case True
    then show ?thesis by (simp add: digits_small)
  next
    case False
    then have "digits n = digits (n div 10) @ [48 + n mod 10]" by (subst digits.simps) simp
    then show ?thesis using 1 False by simp
  qed
qed

lemma digits_range: "\<forall>d\<in>set (digits n). 48 \<le> d \<and> d \<le> 57"
proof (induction n rule: digits.induct)
  case (1 n)
  show ?case
  proof (cases "n < 10")
    case True
    then show ?thesis by (simp add: digits_small)
  next
    case False
    then have "digits n = digits (n div 10) @ [48 + n mod 10]" by (subst digits.simps) simp
    moreover have "n mod 10 \<le> 9" by simp
    ultimately show ?thesis using 1 False by auto
  qed
qed


text \<open>
  Claim C4, as the specification words it, does not hold: the variant prompt is not
  built by the template of the base prompt, and it does not carry the strength
  percentage. With the initial settings and the action \<open>ok\<close>, the variant prompt is the
  same for the strengths 0 and 100, while the base prompt differs; the two prompts of
  the initial settings are written out.
\<close>

theorem C4_variant_prompt_ignores_strength:
  "variant_prompt ((init None)\<lparr>styleStrength := 0\<rparr>) (lit ''ok'') =
     variant_prompt ((init None)\<lparr>styleStrength := 100\<rparr>) (lit ''ok'')
   \<and> base_prompt ((init None)\<lparr>styleStrength := 0\<rparr>) \<noteq>
       base_prompt ((init None)\<lparr>styleStrength := 100\<rparr>)
   \<and> variant_prompt (init None) (lit ''ok'') =
       lit ''Based on the character in the image, create a sticker of them showing the emotion or action: ''
       @ dq @ lit ''ok'' @ dq @ lit ''. The style should be '' @ dq @ [0x53EF, 0x611B] @ dq
       @ lit '' with a transparent background.  Maintain character consistency. ''
   \<and> base_prompt (init None) =
       lit ''Generate a sticker with a transparent background. The subject should be based on the provided image, but rendered in a ''
       @ dq @ [0x53EF, 0x611B] @ dq
       @ lit '' style.  Style strength should be around 70%. Maintain character consistency. ''"
proof -
  have 1: "variant_prompt ((init None)\<lparr>styleStrength := 0\<rparr>) (lit ''ok'') =
     variant_prompt ((init None)\<lparr>styleStrength := 100\<rparr>) (lit ''ok'')"
    by (simp add: variant_prompt_strength)
  have 2: "base_prompt ((init None)\<lparr>styleStrength := 0\<rparr>) \<noteq>
       base_prompt ((init None)\<lparr>styleStrength := 100\<rparr>)"
    by (simp add: base_prompt_def lock_clause_def face_clause_def digits_0 digits_100 lit_def)
  have 3: "variant_prompt (init None) (lit ''ok'') =
       lit ''Based on the character in the image, create a sticker of them showing the emotion or action: ''
       @ dq @ lit ''ok'' @ dq @ lit ''. The style should be '' @ dq @ [0x53EF, 0x611B] @ dq
       @ lit '' with a transparent background.  Maintain character consistency. ''"
    by (simp add: variant_prompt_def stylePrompt_init lock_clause_def face_clause_def init_settings)
      (simp add: lit_def)
  have 4: "base_prompt (init None) =
       lit ''Generate a sticker with a transparent background. The subject should be based on the provided image, but rendered in a ''
       @ dq @ [0x53EF, 0x611B] @ dq
       @ lit '' style.  Style strength should be around 70%. Maintain character consistency. ''"
    by (simp add: base_prompt_def stylePrompt_init lock_clause_def face_clause_def init_settings
        digits_70)
      (simp add: lit_def)
  show ?thesis using 1 2 3 4 by blast
qed


text \<open>
  Claim C4, amended. The base prompt and the variant prompt are built by two templates
  of their own, both written out below for every setting. Both contain the style label
  between double quotes: the custom style when the style is \<open>custom\<close>, and otherwise the
  label that \<open>STYLES\<close> gives for the selected style. Both contain the description
  between double quotes when it is not empty (introduced as a description in the one,
  as a general theme in the other) and leave the whole sentence out when it is empty.
  Both end with the same clauses for the two flags: the sentence on character
  consistency when \<open>lockCharacter\<close> is set, a blank, and the sentence on face consistency
  when \<open>faceConsistency\<close> is set; a flag that is not set contributes nothing. The base
  prompt asks for the subject of the image and carries the strength as a decimal
  numeral followed by the percent sign; the variant prompt names the action or emotion
  between double quotes and does not depend on the strength.
\<close>

theorem C4_prompt_templates:
  "sublist (dq @ tpl (stylePrompt c) @ dq) (base_prompt c)
   \<and> sublist (dq @ tpl (stylePrompt c) @ dq) (variant_prompt c a)
   \<and> (userPrompt c \<noteq> [] \<longrightarrow>
        sublist (lit ''Incorporate this description: '' @ dq @ userPrompt c @ dq) (base_prompt c)
        \<and> sublist (lit ''Incorporate this general theme: '' @ dq @ userPrompt c @ dq)
             (variant_prompt c a))
   \<and> (userPrompt c = [] \<longrightarrow>
        base_prompt c =
          lit ''Generate a sticker with a transparent background. The subject should be based on the provided image, but rendered in a ''
          @ dq @ tpl (stylePrompt c) @ dq @ lit '' style.  Style strength should be around ''
          @ digits (styleStrength c) @ lit ''%. '' @ lock_clause c @ lit '' '' @ face_clause c
        \<and> variant_prompt c a =
          lit ''Based on the character in the image, create a sticker of them showing the emotion or action: ''
          @ dq @ a @ dq @ lit ''. The style should be '' @ dq @ tpl (stylePrompt c) @ dq
          @ lit '' with a transparent background.  '' @ lock_clause c @ lit '' '' @ face_clause c)
   \<and> suffix (lock_clause c @ lit '' '' @ face_clause c) (base_prompt c)
   \<and> suffix (lock_clause c @ lit '' '' @ face_clause c) (variant_prompt c a)
   \<and> sublist (lit ''Style strength should be around '' @ digits (styleStrength c) @ lit ''%'')
        (base_prompt c)
   \<and> variant_prompt (c\<lparr>styleStrength := n\<rparr>) a = variant_prompt c a
   \<and> sublist (lit ''emotion or action: '' @ dq @ a @ dq) (variant_prompt c a)
   \<and> ((style c = lit ''custom'' \<and> l = customStyle c)
        \<or> (style c \<noteq> lit ''custom'' \<and> map_of STYLES (style c) = Some l)
        \<or> (style c \<noteq> lit ''custom'' \<and> map_of STYLES (style c) = None \<and> l = lit ''undefined'') \<longrightarrow>
        base_prompt c =
          lit ''Generate a sticker with a transparent background. The subject should be based on the provided image, but rendered in a ''
          @ dq @ l @ dq @ lit '' style. ''
          @ (if userPrompt c \<noteq> []
             then lit ''Incorporate this description: '' @ dq @ userPrompt c @ dq @ lit ''.''
             else [])
          @ lit '' Style strength should be around '' @ digits (styleStrength c) @ lit ''%. ''
          @ (if lockCharacter c then lit ''Maintain character consistency.'' else [])
          @ lit '' ''
          @ (if faceConsistency c then lit ''Pay close attention to face consistency.'' else [])
        \<and> variant_prompt c a =
          lit ''Based on the character in the image, create a sticker of them showing the emotion or action: ''
          @ dq @ a @ dq @ lit ''. The style should be '' @ dq @ l @ dq
          @ lit '' with a transparent background. ''
          @ (if userPrompt c \<noteq> []
             then lit ''Incorporate this general theme: '' @ dq @ userPrompt c @ dq @ lit ''.''
             else [])
          @ lit '' ''
          @ (if lockCharacter c then lit ''Maintain character consistency.'' else [])
          @ lit '' ''
          @ (if faceConsistency c then lit ''Pay close attention to face consistency.'' else [])
        \<and> sublist (dq @ l @ dq) (base_prompt c)
        \<and> sublist (dq @ l @ dq) (variant_prompt c a))
   \<and> (lockCharacter c \<longrightarrow>
        sublist (lit ''Maintain character consistency.'') (base_prompt c)
        \<and> sublist (lit ''Maintain character consistency.'') (variant_prompt c a))
   \<and> (faceConsistency c \<longrightarrow>
        suffix (lit ''Pay close attention to face consistency.'') (base_prompt c)
        \<and> suffix (lit ''Pay close attention to face consistency.'') (variant_prompt c a))
   \<and> (\<not> lockCharacter c \<and> \<not> faceConsistency c \<longrightarrow>
        suffix (lit ''%.  '') (base_prompt c)
        \<and> lock_clause c = [] \<and> face_clause c = [])
   \<and> foldl (\<lambda>v d. 10 * v + (d - 48)) 0 (digits (styleStrength c)) = styleStrength c
   \<and> (\<forall>d\<in>set (digits (styleStrength c)). 48 \<le> d \<and> d \<le> 57)"
proof -
  let ?d = "if userPrompt c \<noteq> []
        then lit ''Incorporate this description: '' @ dq @ userPrompt c @ dq @ lit ''.''
        else []"
  let ?t = "if userPrompt c \<noteq> []
        then lit ''Incorporate this general theme: '' @ dq @ userPrompt c @ dq @ lit ''.''
        else []"
  let ?f = "lock_clause c @ lit '' '' @ face_clause c"
  let ?B = "lit ''Generate a sticker with a transparent background. The subject should be based on the provided image, but rendered in a ''"
  let ?V = "lit ''Based on the character in the image, create a sticker of them showing the emotion or action: ''"
  have b: "base_prompt c = ?B @ dq @ tpl (stylePrompt c) @ dq @ lit '' style. '' @ ?d
      @ lit '' Style strength should be around '' @ digits (styleStrength c) @ lit ''%. '' @ ?f"
    by (simp add: base_prompt_def)
  have v: "variant_prompt c a = ?V @ dq @ a @ dq @ lit ''. The style should be '' @ dq
      @ tpl (stylePrompt c) @ dq @ lit '' with a transparent background. '' @ ?t @ lit '' '' @ ?f"
    by (simp add: variant_prompt_def)
  have 1: "sublist (dq @ tpl (stylePrompt c) @ dq) (base_prompt c)"
  proof -
    have "base_prompt c = ?B @ (dq @ tpl (stylePrompt c) @ dq) @ (lit '' style. '' @ ?d
      @ lit '' Style strength should be around '' @ digits (styleStrength c) @ lit ''%. '' @ ?f)"
      unfolding b by simp
    then show ?thesis by (metis sublist_appendI)
  qed
  have 2: "sublist (dq @ tpl (stylePrompt c) @ dq) (variant_prompt c a)"
  proof -
    have "variant_prompt c a = (?V @ dq @ a @ dq @ lit ''. The style should be '')
      @ (dq @ tpl (stylePrompt c) @ dq) @ (lit '' with a transparent background. '' @ ?t @ lit '' '' @ ?f)"
      unfolding v by simp
    then show ?thesis by (metis sublist_appendI)
  qed
  have 3: "sublist (lit ''Incorporate this description: '' @ dq @ userPrompt c @ dq) (base_prompt c)
        \<and> sublist (lit ''Incorporate this general theme: '' @ dq @ userPrompt c @ dq)
             (variant_prompt c a)" if u: "userPrompt c \<noteq> []"
  proof -
    have "base_prompt c = (?B @ dq @ tpl (stylePrompt c) @ dq @ lit '' style. '')
      @ (lit ''Incorporate this description: '' @ dq @ userPrompt c @ dq)
      @ (lit ''.'' @ lit '' Style strength should be around '' @ digits (styleStrength c)
         @ lit ''%. '' @ ?f)"
      unfolding b using u by simp
    moreover have "variant_prompt c a = (?V @ dq @ a @ dq @ lit ''. The style should be '' @ dq
      @ tpl (stylePrompt c) @ dq @ lit '' with a transparent background. '')
      @ (lit ''Incorporate this general theme: '' @ dq @ userPrompt c @ dq)
      @ (lit ''.'' @ lit '' '' @ ?f)"
      unfolding v using u by simp
    ultimately show ?thesis by (metis sublist_appendI)
  qed
  have 4: "base_prompt c =
          ?B @ dq @ tpl (stylePrompt c) @ dq @ lit '' style.  Style strength should be around ''
          @ digits (styleStrength c) @ lit ''%. '' @ lock_clause c @ lit '' '' @ face_clause c
        \<and> variant_prompt c a =
          ?V @ dq @ a @ dq @ lit ''. The style should be '' @ dq @ tpl (stylePrompt c) @ dq
          @ lit '' with a transparent background.  '' @ lock_clause c @ lit '' '' @ face_clause c"
    if u: "userPrompt c = []"
    unfolding b v using u by (simp add: lit_def)
  have 5: "suffix ?f (base_prompt c)"
  proof -
    have "base_prompt c = (?B @ dq @ tpl (stylePrompt c) @ dq @ lit '' style. '' @ ?d
      @ lit '' Style strength should be around '' @ digits (styleStrength c) @ lit ''%. '') @ ?f"
      unfolding b by simp
    then show ?thesis by (rule suffixI)
  qed
  have 6: "suffix ?f (variant_prompt c a)"
  proof -
    have "variant_prompt c a = (?V @ dq @ a @ dq @ lit ''. The style should be '' @ dq
      @ tpl (stylePrompt c) @ dq @ lit '' with a transparent background. '' @ ?t @ lit '' '') @ ?f"
      unfolding v by simp
    then show ?thesis by (rule suffixI)
  qed
  have 7: "sublist (lit ''Style strength should be around '' @ digits (styleStrength c) @ lit ''%'')
        (base_prompt c)"
  proof -
    have "base_prompt c = (?B @ dq @ tpl (stylePrompt c) @ dq @ lit '' style. '' @ ?d @ lit '' '')
      @ (lit ''Style strength should be around '' @ digits (styleStrength c) @ lit ''%'')
      @ (lit ''. '' @ ?f)"
      unfolding b by (simp add: lit_def)
    then show ?thesis by (metis sublist_appendI)
  qed
  have 8: "variant_prompt (c\<lparr>styleStrength := n\<rparr>) a = variant_prompt c a"
    by (rule variant_prompt_strength)
  have 9: "sublist (lit ''emotion or action: '' @ dq @ a @ dq) (variant_prompt c a)"
  proof -
    have "variant_prompt c a =
      lit ''Based on the character in the image, create a sticker of them showing the ''
      @ (lit ''emotion or action: '' @ dq @ a @ dq)
      @ (lit ''. The style should be '' @ dq @ tpl (stylePrompt c) @ dq
         @ lit '' with a transparent background. '' @ ?t @ lit '' '' @ ?f)"
      unfolding v by (simp add: lit_def)
    then show ?thesis by (metis sublist_appendI)
  qed
  have 10: "base_prompt c =
          ?B @ dq @ l @ dq @ lit '' style. '' @ ?d
          @ lit '' Style strength should be around '' @ digits (styleStrength c) @ lit ''%. ''
          @ (if lockCharacter c then lit ''Maintain character consistency.'' else [])
          @ lit '' ''
          @ (if faceConsistency c then lit ''Pay close attention to face consistency.'' else [])
        \<and> variant_prompt c a =
          ?V @ dq @ a @ dq @ lit ''. The style should be '' @ dq @ l @ dq
          @ lit '' with a transparent background. '' @ ?t
          @ lit '' ''
          @ (if lockCharacter c then lit ''Maintain character consistency.'' else [])
          @ lit '' ''
          @ (if faceConsistency c then lit ''Pay close attention to face consistency.'' else [])
        \<and> sublist (dq @ l @ dq) (base_prompt c)
        \<and> sublist (dq @ l @ dq) (variant_prompt c a)"
    if h: "(style c = lit ''custom'' \<and> l = customStyle c)
        \<or> (style c \<noteq> lit ''custom'' \<and> map_of STYLES (style c) = Some l)
        \<or> (style c \<noteq> lit ''custom'' \<and> map_of STYLES (style c) = None \<and> l = lit ''undefined'')"
  proof -
    have l: "tpl (stylePrompt c) = l" using h by (auto simp: stylePrompt_def)
    show ?thesis using 1 2 unfolding b v l by (simp add: lock_clause_def face_clause_def)
  qed
  have 11: "sublist (lit ''Maintain character consistency.'') (base_prompt c)
        \<and> sublist (lit ''Maintain character consistency.'') (variant_prompt c a)"
    if h: "lockCharacter c"
  proof -
    have "base_prompt c = (?B @ dq @ tpl (stylePrompt c) @ dq @ lit '' style. '' @ ?d
      @ lit '' Style strength should be around '' @ digits (styleStrength c) @ lit ''%. '')
      @ lit ''Maintain character consistency.'' @ (lit '' '' @ face_clause c)"
      unfolding b using h by (simp add: lock_clause_def)
    moreover have "variant_prompt c a = (?V @ dq @ a @ dq @ lit ''. The style should be '' @ dq
      @ tpl (stylePrompt c) @ dq @ lit '' with a transparent background. '' @ ?t @ lit '' '')
      @ lit ''Maintain character consistency.'' @ (lit '' '' @ face_clause c)"
      unfolding v using h by (simp add: lock_clause_def)
    ultimately show ?thesis by (metis sublist_appendI)
  qed
  have 12: "suffix (lit ''Pay close attention to face consistency.'') (base_prompt c)
        \<and> suffix (lit ''Pay close attention to face consistency.'') (variant_prompt c a)"
    if h: "faceConsistency c"
  proof -
    have "base_prompt c = (?B @ dq @ tpl (stylePrompt c) @ dq @ lit '' style. '' @ ?d
      @ lit '' Style strength should be around '' @ digits (styleStrength c) @ lit ''%. ''
      @ lock_clause c @ lit '' '') @ lit ''Pay close attention to face consistency.''"
      unfolding b using h by (simp add: face_clause_def)
    moreover have "variant_prompt c a = (?V @ dq @ a @ dq @ lit ''. The style should be '' @ dq
      @ tpl (stylePrompt c) @ dq @ lit '' with a transparent background. '' @ ?t @ lit '' ''
      @ lock_clause c @ lit '' '') @ lit ''Pay close attention to face consistency.''"
      unfolding v using h by (simp add: face_clause_def)
    ultimately show ?thesis by (metis suffixI)
  qed
  have 13: "suffix (lit ''%.  '') (base_prompt c) \<and> lock_clause c = [] \<and> face_clause c = []"
    if h: "\<not> lockCharacter c \<and> \<not> faceConsistency c"
  proof -
    have "base_prompt c = (?B @ dq @ tpl (stylePrompt c) @ dq @ lit '' style. '' @ ?d
      @ lit '' Style strength should be around '' @ digits (styleStrength c)) @ lit ''%.  ''"
      unfolding b using h by (simp add: lock_clause_def face_clause_def lit_def)
    then have "suffix (lit ''%.  '') (base_prompt c)" by (rule suffixI)
    then show ?thesis using h by (simp add: lock_clause_def face_clause_def)
  qed
  have 14: "foldl (\<lambda>v d. 10 * v + (d - 48)) 0 (digits (styleStrength c)) = styleStrength c"
    by (rule digits_value)
  have 15: "\<forall>d\<in>set (digits (styleStrength c)). 48 \<le> d \<and> d \<le> 57"
    by (rule digits_range)
  show ?thesis using 1 2 3 4 5 6 7 8 9 10 11 12 13 14 15 by blast
qed

theorem C4_prompt_templates_witness:
  "userPrompt ((init None)\<lparr>userPrompt := lit ''party hat''\<rparr>) \<noteq> []
   \<and> sublist (lit ''Incorporate this description: '' @ dq @ lit ''party hat'' @ dq)
        (base_prompt ((init None)\<lparr>userPrompt := lit ''party hat''\<rparr>))
   \<and> sublist (lit ''Incorporate this general theme: '' @ dq @ lit ''party hat'' @ dq)
        (variant_prompt ((init None)\<lparr>userPrompt := lit ''party hat''\<rparr>) (lit ''ok''))
   \<and> userPrompt (init None) = []
   \<and> sublist (dq @ [0x53EF, 0x611B] @ dq) (base_prompt (init None))
   \<and> sublist (lit ''Style strength should be around '' @ lit ''70'' @ lit ''%'')
        (base_prompt (init None))
   \<and> style (init None) \<noteq> lit ''custom''
   \<and> map_of STYLES (style (init None)) = Some [0x53EF, 0x611B]
   \<and> sublist (dq @ [0x53EF, 0x611B] @ dq) (variant_prompt (init None) (lit ''ok''))
   \<and> lockCharacter (init None)
   \<and> sublist (lit ''Maintain character consistency.'') (variant_prompt (init None) (lit ''ok''))
   \<and> style ((init None)\<lparr>style := lit ''custom'', customStyle := lit ''ink wash'',
                          faceConsistency := True\<rparr>) = lit ''custom''
   \<and> faceConsistency ((init None)\<lparr>style := lit ''custom'', customStyle := lit ''ink wash'',
                          faceConsistency := True\<rparr>)
   \<and> sublist (dq @ lit ''ink wash'' @ dq)
        (base_prompt ((init None)\<lparr>style := lit ''custom'', customStyle := lit ''ink wash'',
                          faceConsistency := True\<rparr>))
   \<and> sublist (dq @ lit ''ink wash'' @ dq)
        (variant_prompt ((init None)\<lparr>style := lit ''custom'', customStyle := lit ''ink wash'',
                          faceConsistency := True\<rparr>) (lit ''ok''))
   \<and> suffix (lit ''Pay close attention to face consistency.'')
        (base_prompt ((init None)\<lparr>style := lit ''custom'', customStyle := lit ''ink wash'',
                          faceConsistency := True\<rparr>))
   \<and> suffix (lit ''Pay close attention to face consistency.'')
        (variant_prompt ((init None)\<lparr>style := lit ''custom'', customStyle := lit ''ink wash'',
                          faceConsistency := True\<rparr>) (lit ''ok''))"
proof -
  let ?c = "(init None)\<lparr>userPrompt := lit ''party hat''\<rparr>"
  let ?k = "(init None)\<lparr>style := lit ''custom'', customStyle := lit ''ink wash'',
                          faceConsistency := True\<rparr>"
  have u: "userPrompt ?c \<noteq> []" by simp
  have e: "userPrompt (init None) = []" by (simp add: init_settings)
  have "sublist (lit ''Incorporate this description: '' @ dq @ userPrompt ?c @ dq) (base_prompt ?c)
      \<and> sublist (lit ''Incorporate this general theme: '' @ dq @ userPrompt ?c @ dq)
           (variant_prompt ?c (lit ''ok''))"
    using u C4_prompt_templates [where c = ?c and a = "lit ''ok''"] by blast
  then have 1: "sublist (lit ''Incorporate this description: '' @ dq @ lit ''party hat'' @ dq)
        (base_prompt ?c)
      \<and> sublist (lit ''Incorporate this general theme: '' @ dq @ lit ''party hat'' @ dq)
           (variant_prompt ?c (lit ''ok''))"
    by simp
  have "sublist (dq @ tpl (stylePrompt (init None)) @ dq) (base_prompt (init None))
      \<and> sublist (lit ''Style strength should be around '' @ digits (styleStrength (init None)) @ lit ''%'')
           (base_prompt (init None))"
    using C4_prompt_templates [where c = "init None" and a = "lit ''ok''"] by blast
  then have 2: "sublist (dq @ [0x53EF, 0x611B] @ dq) (base_prompt (init None))
      \<and> sublist (lit ''Style strength should be around '' @ lit ''70'' @ lit ''%'')
           (base_prompt (init None))"
    by (simp add: stylePrompt_init init_settings digits_70)
  have s: "style (init None) \<noteq> lit ''custom''" by (simp add: init_settings)
  have m: "map_of STYLES (style (init None)) = Some [0x53EF, 0x611B]"
    by (simp add: init_settings STYLES_def)
  have lk: "lockCharacter (init None)" by (simp add: init_settings)
  have 3: "sublist (dq @ [0x53EF, 0x611B] @ dq) (variant_prompt (init None) (lit ''ok''))
      \<and> sublist (lit ''Maintain character consistency.'') (variant_prompt (init None) (lit ''ok''))"
    using s m lk
      C4_prompt_templates [where c = "init None" and a = "lit ''ok''" and l = "[0x53EF, 0x611B]"]
    by blast
  have sk: "style ?k = lit ''custom''" and ck: "lit ''ink wash'' = customStyle ?k"
    and fk: "faceConsistency ?k"
    by simp_all
  have 4: "sublist (dq @ lit ''ink wash'' @ dq) (base_prompt ?k)
      \<and> sublist (dq @ lit ''ink wash'' @ dq) (variant_prompt ?k (lit ''ok''))
      \<and> suffix (lit ''Pay close attention to face consistency.'') (base_prompt ?k)
      \<and> suffix (lit ''Pay close attention to face consistency.'') (variant_prompt ?k (lit ''ok''))"
    using sk ck fk
      C4_prompt_templates [where c = ?k and a = "lit ''ok''" and l = "lit ''ink wash''"]
    by blast
  show ?thesis using u e 1 2 s m lk 3 sk fk 4 by blast
qed

end
